theory Spec2Isabelle
  imports Complex_Main
begin

section \<open>Values of the host language\<close>

text \<open>
  The agent is TypeScript. A string is modelled as a \<open>char list\<close>; the few characters
  beyond ASCII that the agent writes into its messages are given by their UTF-8 bytes.
  A \<open>bigint\<close> and an integer-valued \<open>number\<close> (a clock reading, a task id) is an
  \<open>int\<close>; a \<open>Date\<close> is its clock reading in milliseconds. A thrown \<open>Error\<close> is a value
  carrying its message, and a call that may throw returns \<open>error + 'a\<close>.
\<close>

datatype error = Error string

definition check_mark :: string where
  "check_mark = [CHR 0xE2, CHR 0x9C, CHR 0x85]"

definition cross_mark :: string where
  "cross_mark = [CHR 0xE2, CHR 0x9D, CHR 0x8C]"

definition cycle_mark :: string where
  "cycle_mark = [CHR 0xF0, CHR 0x9F, CHR 0x94, CHR 0x84]"

definition double_quote :: string where
  "double_quote = [CHR 0x22]"

text \<open>
  The template literal \<open>`topup_${Date.now()}`\<close> renders the clock reading in decimal,
  with a leading minus sign for a reading before the epoch.
\<close>

definition digit_char :: "nat \<Rightarrow> char" where
  "digit_char d = ''0123456789'' ! d"

fun string_of_nat :: "nat \<Rightarrow> string" where
  "string_of_nat n =
     (if n < 10 then [digit_char n] else string_of_nat (n div 10) @ [digit_char (n mod 10)])"

declare string_of_nat.simps [simp del]

definition string_of_int :: "int \<Rightarrow> string" where
  "string_of_int i =
     (if i < 0 then CHR ''-'' # string_of_nat (nat (- i)) else string_of_nat (nat i))"

text \<open>
  \<open>Map.prototype.set\<close>: a JavaScript \<open>Map\<close> keeps its entries in insertion order; setting
  a key it already holds replaces the value in place, a new key goes to the end.
  \<open>Map.prototype.get\<close> is \<open>map_of\<close>.
\<close>

fun map_set :: "'k \<Rightarrow> 'v \<Rightarrow> ('k \<times> 'v) list \<Rightarrow> ('k \<times> 'v) list" where
  "map_set k v [] = [(k, v)]"
| "map_set k v ((k', v') # m) = (if k' = k then (k, v) # m else (k', v') # map_set k v m)"

section \<open>Address validation\<close>

text \<open>
  \<open>isValidAddress\<close> tests its argument against the regular expression
  \<open>/^0x[a-fA-F0-9]{64}$/\<close>. The expression is a sequence of atoms, each repeated a fixed
  number of times, anchored at both ends of the input (without the \<open>m\<close> flag, \<open>$\<close> is
  the end of the input only). An atom is one literal character or a class of character
  ranges, compared by character code.
\<close>

datatype atom = Lit char | Class "(char \<times> char) list"

fun atom_matches :: "atom \<Rightarrow> char \<Rightarrow> bool" where
  "atom_matches (Lit a) c = (c = a)"
| "atom_matches (Class rs) c =
     list_ex (\<lambda>(lo, hi). (of_char lo :: nat) \<le> of_char c \<and> (of_char c :: nat) \<le> of_char hi) rs"

fun matches :: "(atom \<times> nat) list \<Rightarrow> string \<Rightarrow> bool" where
  "matches [] s = (s = [])"
| "matches ((a, 0) # r) s = matches r s"
| "matches ((a, Suc n) # r) [] = False"
| "matches ((a, Suc n) # r) (c # s) = (atom_matches a c \<and> matches ((a, n) # r) s)"

definition hex_class :: atom where
  "hex_class = Class [(CHR ''a'', CHR ''f''), (CHR ''A'', CHR ''F''), (CHR ''0'', CHR ''9'')]"

definition address_regex :: "(atom \<times> nat) list" where
  "address_regex = [(Lit CHR ''0'', 1), (Lit CHR ''x'', 1), (hex_class, 64)]"

definition isValidAddress :: "string \<Rightarrow> bool" where
  "isValidAddress address = matches address_regex address"

text \<open>
  The specification's wording of the same check: a hexadecimal character is a digit or
  a letter \<open>a\<close> to \<open>f\<close> in either case.
\<close>

definition hex_digit :: "char \<Rightarrow> bool" where
  "hex_digit c = (c \<in> set ''0123456789abcdefABCDEF'')"

section \<open>The strategy record and the agent's state\<close>

text \<open>
  \<open>AutomationStrategy\<close> of \<open>super-agent.ts\<close>. The field \<open>id\<close> is \<open>id_s\<close> and \<open>type\<close> is
  \<open>type_s\<close> here; \<open>target\<close> is \<open>parameters.target\<close>; \<open>lastExecution\<close> is its timestamp, gas
  used and success flag.
\<close>

datatype strategy_type = auto_topup

record AutomationStrategy =
  id_s :: string
  type_s :: strategy_type
  name :: string
  description :: string
  target :: string
  taskId :: "int option"
  isActive :: bool
  createdAt :: int
  lastChecked :: "int option"
  executionCount :: int
  successRate :: real
  totalTransferred :: int
  lastExecution :: "(int \<times> int \<times> bool) option"

text \<open>
  The \<open>Map\<close> of strategies holds references to strategy objects, and \<open>cancelStrategy\<close>
  and the monitor write through such a reference. So the state has a heap of every
  strategy object allocated so far (an object's address is its index) and the \<open>Map\<close>
  from strategy id to address. Of \<open>performanceMetrics\<close> only the creation counter is
  written by the operations modelled here. \<open>events\<close> is the log of the notifications
  passed to \<open>emit\<close>, oldest first; a notification that carries a strategy carries its
  reference. What a listener does with a notification is outside the agent and not
  modelled.
\<close>

type_synonym addr = nat

record params =
  strategyName :: string
  targetAddress :: string

datatype event =
    strategyCreated addr
  | strategyCreationFailed error params
  | lowBalanceAlert addr int
  | strategyError string error

record agent =
  heap :: "AutomationStrategy list"
  strategies :: "(string \<times> addr) list"
  totalStrategiesCreated :: nat
  events :: "event list"

definition new_agent :: agent where
  "new_agent = \<lparr>heap = [], strategies = [], totalStrategiesCreated = 0, events = []\<rparr>"

definition emit :: "event \<Rightarrow> agent \<Rightarrow> agent" where
  "emit e s = s\<lparr>events := events s @ [e]\<rparr>"

text \<open>
  A state is well formed when the \<open>Map\<close> has each key once, no two keys share a strategy
  object, and every reference is to an allocated object.
\<close>

definition wf :: "agent \<Rightarrow> bool" where
  "wf s \<longleftrightarrow>
     distinct (map fst (strategies s)) \<and> distinct (map snd (strategies s)) \<and>
     list_all (\<lambda>(k, a). a < length (heap s)) (strategies s)"

section \<open>Creating a strategy\<close>

text \<open>
  What an operation returns to the dispatcher. The fields are those of the objects the
  source returns, \<open>strategyId\<close>, \<open>txHash\<close>, \<open>taskId\<close> and \<open>strategy\<close> with the prefix
  \<open>result_\<close>; a field an object does not have is \<open>None\<close>. \<open>result_strategy\<close> is the
  reference to the stored object, \<open>failure_note\<close> is the field \<open>note\<close>. The purely
  presentational fields (\<open>estimatedMonthlyCost\<close>, \<open>suggestions\<close>, \<open>troubleshooting\<close>)
  are left out.
\<close>

record result =
  success :: bool
  message :: string
  error_message :: "string option"
  result_strategyId :: "string option"
  result_txHash :: "string option"
  result_taskId :: "int option"
  result_strategy :: "addr option"
  mode :: "string option"
  failure_note :: "string option"

text \<open>
  What the outside world answers during one call of \<open>createAutoTopupStrategy\<close>:
  the clock read by \<open>Date.now()\<close> when the id is built, the reply to the balance query
  of \<open>performPreDeploymentChecks\<close>, the outcome of \<open>deployRealAutomation\<close> (the
  transaction hash and the task id derived from it, or the error it throws), the clock
  read by \<open>new Date()\<close> when the record is built, and the two random draws of the
  simulation branch, \<open>Math.floor(Math.random() * 10000)\<close> and
  \<open>Math.random().toString(16).slice(2)\<close>.
\<close>

record create_io =
  date_now :: int
  precheck_reply :: "error + int"
  deploy_reply :: "error + string \<times> int"
  new_date :: int
  random_taskId :: int
  random_hash :: string

fun error_text :: "error \<Rightarrow> string" where
  "error_text (Error m) = m"

text \<open>\<open>performPreDeploymentChecks\<close> catches whatever its balance query throws.\<close>

definition performPreDeploymentChecks :: "error + int \<Rightarrow> error + unit" where
  "performPreDeploymentChecks reply =
     (case reply of Inr balance \<Rightarrow> Inr () | Inl e \<Rightarrow> Inr ())"

text \<open>
  \<open>this.strategies.set(strategyId, strategy)\<close> for a strategy object that was just
  built: the object is allocated and the \<open>Map\<close> entry refers to it.
\<close>

definition store_strategy :: "string \<Rightarrow> AutomationStrategy \<Rightarrow> agent \<Rightarrow> agent" where
  "store_strategy k strategy s =
     s\<lparr>heap := heap s @ [strategy], strategies := map_set k (length (heap s)) (strategies s)\<rparr>"

definition createAutoTopupStrategy ::
  "create_io \<Rightarrow> params \<Rightarrow> agent \<Rightarrow> result \<times> agent"
where
  "createAutoTopupStrategy io p s =
    (let strategyId = ''topup_'' @ string_of_int (date_now io) in
     case (if \<not> isValidAddress (targetAddress p)
           then Inl (Error (''Invalid address format: '' @ targetAddress p @
                            ''. Must be 0x followed by 64 hex characters.''))
           else performPreDeploymentChecks (precheck_reply io)) of
       Inl err \<Rightarrow>
         (\<lparr>success = False,
           message = cross_mark @ '' Failed to create strategy: '' @ error_text err,
           error_message = Some (error_text err), result_strategyId = None, result_txHash = None,
           result_taskId = None, result_strategy = None, mode = None, failure_note = None\<rparr>,
          emit (strategyCreationFailed err p) s)
     | Inr checked \<Rightarrow>
         (case deploy_reply io of
            Inr (hash, task) \<Rightarrow>
              (let strategy =
                     \<lparr>id_s = strategyId, type_s = auto_topup, name = strategyName p,
                      description = ''Smart auto top-up for '' @ targetAddress p @
                                    '' - maintains 600+ SUPRA balance'',
                      target = targetAddress p, taskId = Some task, isActive = True,
                      createdAt = new_date io, lastChecked = None, executionCount = 0,
                      successRate = 1, totalTransferred = 0, lastExecution = None\<rparr>;
                   a = length (heap s);
                   s1 = store_strategy strategyId strategy s;
                   s2 = s1\<lparr>totalStrategiesCreated := totalStrategiesCreated s1 + 1\<rparr>;
                   s3 = emit (strategyCreated a) s2
               in (\<lparr>success = True,
                    message = check_mark @ '' Strategy '' @ double_quote @ strategyName p @
                              double_quote @ '' deployed successfully!'',
                    error_message = None, result_strategyId = Some strategyId, result_txHash = Some hash,
                    result_taskId = Some task, result_strategy = Some a,
                    mode = Some ''REAL_DEPLOYMENT'', failure_note = None\<rparr>, s3))
          | Inl deployError \<Rightarrow>
              (let strategy =
                     \<lparr>id_s = strategyId, type_s = auto_topup, name = strategyName p,
                      description = ''Simulated auto top-up for '' @ targetAddress p,
                      target = targetAddress p, taskId = Some (random_taskId io),
                      isActive = True, createdAt = new_date io, lastChecked = None,
                      executionCount = 0, successRate = 1, totalTransferred = 0,
                      lastExecution = None\<rparr>;
                   a = length (heap s);
                   s1 = store_strategy strategyId strategy s
               in (\<lparr>success = True,
                    message = cycle_mark @ '' Strategy created in simulation mode'',
                    error_message = None, result_strategyId = Some strategyId,
                    result_txHash = Some (''0x'' @ random_hash io), result_taskId = taskId strategy,
                    result_strategy = Some a, mode = Some ''SIMULATION'',
                    failure_note = Some (''Real deployment failed: '' @ error_text deployError)\<rparr>,
                   s1))))"

section \<open>Cancelling a strategy\<close>

text \<open>
  \<open>cancelStrategy\<close> of \<open>super-agent.ts\<close> writes \<open>isActive = false\<close> through the reference
  it got from the \<open>Map\<close> and sets the same reference again. It does not read
  \<open>isActive\<close>. Nothing in its \<open>try\<close> block throws, so its \<open>catch\<close> branch is not reached and
  the function always returns a result.
\<close>

definition cancelStrategy :: "string \<Rightarrow> agent \<Rightarrow> result \<times> agent" where
  "cancelStrategy k s =
     (case map_of (strategies s) k of
        None \<Rightarrow>
          (\<lparr>success = False, message = ''Strategy not found'', error_message = None,
            result_strategyId = None, result_txHash = None, result_taskId = None, result_strategy = None,
            mode = None, failure_note = None\<rparr>, s)
      | Some a \<Rightarrow>
          (let s1 = s\<lparr>heap := (heap s)[a := (heap s ! a)\<lparr>isActive := False\<rparr>]\<rparr>;
               s2 = s1\<lparr>strategies := map_set k a (strategies s1)\<rparr>
           in (\<lparr>success = True,
                message = check_mark @ '' Successfully cancelled: '' @ name (heap s2 ! a),
                error_message = None, result_strategyId = Some k, result_txHash = None,
                result_taskId = None, result_strategy = None, mode = None, failure_note = None\<rparr>,
               s2)))"

section \<open>The balance oracle and the health evaluation\<close>

text \<open>
  What the outside world answers while one strategy is looked at: the reply of the
  client's \<open>getAccountCoinBalance\<close> for an address (a balance, or the error it throws),
  the draw \<open>Math.floor(Math.random() * 100000000)\<close> and the clock read by \<open>new Date()\<close>.
  A pass over the \<open>Map\<close> visits each key once, so the answers of a pass are given per
  strategy id.
\<close>

record io =
  getAccountCoinBalance :: "string \<Rightarrow> error + int"
  random_balance :: int
  date :: int

text \<open>
  \<open>getAccountBalance\<close> catches the error of the client and returns the random draw
  in its place.
\<close>

definition getAccountBalance :: "io \<Rightarrow> string \<Rightarrow> error + int" where
  "getAccountBalance w address =
     (case getAccountCoinBalance w address of
        Inr balance \<Rightarrow> Inr balance
      | Inl e \<Rightarrow> Inr (random_balance w))"

definition threshold :: int where
  "threshold = 600000000"

text \<open>
  \<open>calculateHealthStatus\<close> of \<open>super-agent.ts\<close> (its \<open>balanceRatio\<close>, a floating-point
  quotient, is left out).
\<close>

record health_status =
  hs_status :: string
  hs_willTrigger :: bool
  hs_recommendation :: string

definition calculateHealthStatus :: "AutomationStrategy \<Rightarrow> int \<Rightarrow> health_status" where
  "calculateHealthStatus strategy balance =
     \<lparr>hs_status = (if balance \<ge> threshold then ''healthy'' else ''needs_topup''),
      hs_willTrigger = (balance < threshold),
      hs_recommendation =
        (if balance < threshold then ''Top-up will trigger automatically''
         else ''Balance is healthy'')\<rparr>"

text \<open>
  \<open>analyzeStrategy\<close> of \<open>index.ts\<close> (its \<open>metrics\<close>, two floating-point quotients, are
  left out). It builds the analysis with status \<open>unknown\<close> and overwrites three fields
  in the branch taken. The strategy it is given is not read.
\<close>

record analysis =
  status :: string
  urgency :: string
  recommendation :: string
  willTrigger :: bool

definition analyzeStrategy :: "'strategy \<Rightarrow> int \<Rightarrow> analysis" where
  "analyzeStrategy strategy currentBalance =
     (let threshold = (600000000 :: int);
          topupAmount = (50000000 :: int);
          analysis = \<lparr>status = ''unknown'', urgency = ''low'', recommendation = [],
                      willTrigger = (currentBalance < threshold)\<rparr>
      in if currentBalance < threshold then
           analysis\<lparr>status := ''below_threshold'', urgency := ''high'',
             recommendation := ''Balance is below 600 SUPRA! Top-up will trigger with 50 SUPRA.''\<rparr>
         else if currentBalance < threshold * 2 then
           analysis\<lparr>status := ''approaching_threshold'', urgency := ''medium'',
             recommendation := ''Balance getting close to 600 SUPRA threshold.''\<rparr>
         else
           analysis\<lparr>status := ''healthy'', urgency := ''low'',
             recommendation := ''Balance is well above threshold. Strategy working well.''\<rparr>)"

section \<open>Listing and status checks\<close>

definition strategy_values :: "agent \<Rightarrow> AutomationStrategy list" where
  "strategy_values s = map (\<lambda>(k, a). heap s ! a) (strategies s)"

record listed =
  listed_id :: string
  listed_name :: string
  listed_type :: strategy_type
  listed_description :: string
  listed_createdAt :: int
  listed_target :: string
  listed_executionCount :: int
  listed_successRate :: real

text \<open>\<open>listActiveStrategies\<close> returns the listed strategies and their count.\<close>

definition listActiveStrategies :: "agent \<Rightarrow> listed list \<times> nat" where
  "listActiveStrategies s =
     (let activeStrategies =
            map (\<lambda>x. \<lparr>listed_id = id_s x, listed_name = name x, listed_type = type_s x,
                       listed_description = description x, listed_createdAt = createdAt x,
                       listed_target = target x, listed_executionCount = executionCount x,
                       listed_successRate = successRate x\<rparr>)
              (filter isActive (strategy_values s))
      in (activeStrategies, length activeStrategies))"

text \<open>
  A status check copies the strategy object (the spread \<open>{...strategy, ...}\<close>) with a new
  \<open>lastChecked\<close>, and adds the balance and the health status; the stored object is not
  written.
\<close>

record status_check =
  checked :: AutomationStrategy
  currentBalance :: int
  healthStatus :: health_status

record status_summary =
  totalStrategies :: nat
  healthyStrategies :: nat
  strategiesNeedingTopup :: nat
  overallHealth :: string

definition generateStatusSummary :: "status_check list \<Rightarrow> status_summary" where
  "generateStatusSummary cs =
     (let healthy = length (filter (\<lambda>c. hs_status (healthStatus c) = ''healthy'') cs);
          needsTopup = length (filter (\<lambda>c. hs_status (healthStatus c) = ''needs_topup'') cs)
      in \<lparr>totalStrategies = length cs, healthyStrategies = healthy,
          strategiesNeedingTopup = needsTopup,
          overallHealth =
            (if needsTopup = 0 then ''excellent''
             else if real needsTopup < real (length cs) / 2 then ''good''
             else ''attention_needed'')\<rparr>)"

datatype status_result =
    Status_failed string
  | Status_one status_check
  | Status_all "status_check list" status_summary

definition check_one :: "io \<Rightarrow> AutomationStrategy \<Rightarrow> error + status_check" where
  "check_one w x =
     (case getAccountBalance w (target x) of
        Inl e \<Rightarrow> Inl e
      | Inr balance \<Rightarrow>
          Inr \<lparr>checked = x\<lparr>lastChecked := Some (date w)\<rparr>, currentBalance = balance,
               healthStatus = calculateHealthStatus x balance\<rparr>)"

fun status_checks ::
  "(string \<Rightarrow> io) \<Rightarrow> agent \<Rightarrow> (string \<times> addr) list \<Rightarrow> error + status_check list"
where
  "status_checks w s [] = Inr []"
| "status_checks w s ((k, a) # es) =
     (if isActive (heap s ! a) then
        (case check_one (w k) (heap s ! a) of
           Inl e \<Rightarrow> Inl e
         | Inr c \<Rightarrow>
             (case status_checks w s es of Inl e \<Rightarrow> Inl e | Inr cs \<Rightarrow> Inr (c # cs)))
      else status_checks w s es)"

text \<open>
  \<open>checkStrategyStatus\<close>: \<open>if (strategyId)\<close> takes the first branch for a given,
  non-empty id.
\<close>

definition checkStrategyStatus ::
  "string option \<Rightarrow> (string \<Rightarrow> io) \<Rightarrow> agent \<Rightarrow> status_result"
where
  "checkStrategyStatus strategyId w s =
     (case (case strategyId of
              Some k \<Rightarrow>
                (if k \<noteq> [] then
                   (case map_of (strategies s) k of
                      None \<Rightarrow> Inr (Status_failed ''Strategy not found'')
                    | Some a \<Rightarrow>
                        (case check_one (w k) (heap s ! a) of
                           Inl e \<Rightarrow> Inl e
                         | Inr c \<Rightarrow> Inr (Status_one c)))
                 else
                   (case status_checks w s (strategies s) of
                      Inl e \<Rightarrow> Inl e
                    | Inr cs \<Rightarrow> Inr (Status_all cs (generateStatusSummary cs))))
            | None \<Rightarrow>
                (case status_checks w s (strategies s) of
                   Inl e \<Rightarrow> Inl e
                 | Inr cs \<Rightarrow> Inr (Status_all cs (generateStatusSummary cs)))) of
        Inr r \<Rightarrow> r
      | Inl e \<Rightarrow> Status_failed ''Failed to check strategy status'')"

section \<open>The monitor\<close>

text \<open>
  \<open>strategy.lastChecked = new Date(); this.strategies.set(id, strategy)\<close>: the write
  goes through the reference, and the \<open>Map\<close> is set to the same reference.
\<close>

definition touch :: "string \<Rightarrow> addr \<Rightarrow> int \<Rightarrow> agent \<Rightarrow> agent" where
  "touch k a d s =
     s\<lparr>heap := (heap s)[a := (heap s ! a)\<lparr>lastChecked := Some d\<rparr>],
       strategies := map_set k a (strategies s)\<rparr>"

text \<open>\<open>updateStrategyPerformance\<close>, run every five minutes by the timer of the constructor.\<close>

fun update_loop ::
  "(string \<Rightarrow> int) \<Rightarrow> (string \<times> addr) list \<Rightarrow> agent \<Rightarrow> agent"
where
  "update_loop clock [] s = s"
| "update_loop clock ((k, a) # es) s =
     update_loop clock es (if isActive (heap s ! a) then touch k a (clock k) s else s)"

definition updateStrategyPerformance :: "(string \<Rightarrow> int) \<Rightarrow> agent \<Rightarrow> agent" where
  "updateStrategyPerformance clock s = update_loop clock (strategies s) s"

text \<open>
  The loop of \<open>runPeriodicCheck\<close> over the entries of the \<open>Map\<close>. It is written over the
  balance fetch it awaits, \<open>fetch k address\<close> for the entry with key \<open>k\<close>, so that its
  \<open>catch\<close> branch can be stated for a fetch that throws; \<open>runPeriodicCheck\<close> is the loop
  with the agent's own \<open>getAccountBalance\<close>.
\<close>

type_synonym balance_fetch = "string \<Rightarrow> string \<Rightarrow> error + int"

definition check_entry ::
  "balance_fetch \<Rightarrow> (string \<Rightarrow> int) \<Rightarrow> string \<Rightarrow> addr \<Rightarrow> agent \<Rightarrow> agent"
where
  "check_entry fetch clock k a s =
     (let strategy = heap s ! a in
      if \<not> isActive strategy then s
      else
        (case fetch k (target strategy) of
           Inr balance \<Rightarrow>
             touch k a (clock k)
               (if balance < threshold * 2 then emit (lowBalanceAlert a balance) s else s)
         | Inl e \<Rightarrow> emit (strategyError k e) s))"

fun check_loop ::
  "balance_fetch \<Rightarrow> (string \<Rightarrow> int) \<Rightarrow> (string \<times> addr) list \<Rightarrow> agent \<Rightarrow> agent"
where
  "check_loop fetch clock [] s = s"
| "check_loop fetch clock ((k, a) # es) s =
     check_loop fetch clock es (check_entry fetch clock k a s)"

definition runPeriodicCheck :: "(string \<Rightarrow> io) \<Rightarrow> agent \<Rightarrow> agent" where
  "runPeriodicCheck w s =
     check_loop (\<lambda>k. getAccountBalance (w k)) (\<lambda>k. date (w k)) (strategies s) s"

section \<open>Operations and runs\<close>

datatype operation =
    Create create_io params
  | Cancel string
  | ListActive
  | CheckStatus "string option" "string \<Rightarrow> io"
  | PeriodicCheck "string \<Rightarrow> io"
  | UpdatePerformance "string \<Rightarrow> int"

text \<open>
  The state an operation leaves. Listing and status checks return a value and write
  nothing. Each operation is taken as one step: a step of one operation between the
  awaits of another is not modelled.
\<close>

fun perform :: "operation \<Rightarrow> agent \<Rightarrow> agent" where
  "perform (Create io p) s = snd (createAutoTopupStrategy io p s)"
| "perform (Cancel k) s = snd (cancelStrategy k s)"
| "perform ListActive s = s"
| "perform (CheckStatus strategyId w) s = s"
| "perform (PeriodicCheck w) s = runPeriodicCheck w s"
| "perform (UpdatePerformance clock) s = updateStrategyPerformance clock s"

fun run :: "operation list \<Rightarrow> agent \<Rightarrow> agent" where
  "run [] s = s"
| "run (operation # rest) s = run rest (perform operation s)"

section \<open>What a pass of the monitor contributes\<close>

text \<open>
  The balance \<open>getAccountBalance\<close> hands to its caller, the notifications one entry of
  the \<open>Map\<close> adds to the log, and the object one entry leaves behind. The theorems about
  the loop are stated with these.
\<close>

definition fetched_balance :: "io \<Rightarrow> string \<Rightarrow> int" where
  "fetched_balance w address =
     (case getAccountCoinBalance w address of
        Inr balance \<Rightarrow> balance
      | Inl e \<Rightarrow> random_balance w)"

definition entry_events :: "balance_fetch \<Rightarrow> agent \<Rightarrow> string \<times> addr \<Rightarrow> event list" where
  "entry_events fetch s =
     (\<lambda>(k, a).
        if \<not> isActive (heap s ! a) then []
        else
          (case fetch k (target (heap s ! a)) of
             Inr balance \<Rightarrow> if balance < threshold * 2 then [lowBalanceAlert a balance] else []
           | Inl e \<Rightarrow> [strategyError k e]))"

definition entry_object ::
  "balance_fetch \<Rightarrow> (string \<Rightarrow> int) \<Rightarrow> agent \<Rightarrow> string \<times> addr \<Rightarrow> AutomationStrategy"
where
  "entry_object fetch clock s =
     (\<lambda>(k, a).
        if \<not> isActive (heap s ! a) then heap s ! a
        else
          (case fetch k (target (heap s ! a)) of
             Inr balance \<Rightarrow> (heap s ! a)\<lparr>lastChecked := Some (clock k)\<rparr>
           | Inl e \<Rightarrow> heap s ! a))"

text \<open>Whether a notification is a \<open>strategyError\<close>.\<close>

fun is_strategyError :: "event \<Rightarrow> bool" where
  "is_strategyError (strategyError k e) = True"
| "is_strategyError other = False"

section \<open>Reading a decimal rendering back\<close>

definition digit_value :: "char \<Rightarrow> nat" where
  "digit_value c = of_char c - 48"

definition decimal_value :: "string \<Rightarrow> nat" where
  "decimal_value s = foldl (\<lambda>n c. 10 * n + digit_value c) 0 s"

section \<open>Example inputs\<close>

text \<open>
  Concrete inputs for the instances below: the two addresses of the specification's
  examples, a create request with each of them and one with a malformed address, the
  answers of the world for a deployment that succeeds and for one that fails, and the
  states these lead to from a new agent.
\<close>

definition zero_address :: string where
  "zero_address = ''0x'' @ replicate 64 CHR ''0''"

definition wallet_address :: string where
  "wallet_address = ''0x'' @ replicate 64 CHR ''1''"

definition cold_address :: string where
  "cold_address = ''0x'' @ replicate 64 CHR ''a''"

definition wallet_params :: params where
  "wallet_params = \<lparr>strategyName = ''Trading Wallet'', targetAddress = wallet_address\<rparr>"

definition gas_params :: params where
  "gas_params = \<lparr>strategyName = ''Gas Wallet'', targetAddress = zero_address\<rparr>"

definition short_params :: params where
  "short_params = \<lparr>strategyName = ''Trading Wallet'', targetAddress = ''0x123''\<rparr>"

definition deployed :: create_io where
  "deployed =
     \<lparr>date_now = 1700000000000, precheck_reply = Inr 0,
      deploy_reply = Inr (''0xbeef0000002a'', 42), new_date = 1700000010050,
      random_taskId = 42, random_hash = ''8f3a91c2''\<rparr>"

definition deploy_failed :: create_io where
  "deploy_failed = deployed\<lparr>deploy_reply := Inl (Error ''Insufficient balance'')\<rparr>"

definition one_simulated :: agent where
  "one_simulated = snd (createAutoTopupStrategy deploy_failed wallet_params new_agent)"

definition one_deployed :: agent where
  "one_deployed = snd (createAutoTopupStrategy deployed wallet_params new_agent)"

definition one_cancelled :: agent where
  "one_cancelled = snd (cancelStrategy ''topup_1700000000000'' one_simulated)"

definition overwritten :: agent where
  "overwritten = snd (createAutoTopupStrategy deploy_failed gas_params one_simulated)"

definition cold_params :: params where
  "cold_params = \<lparr>strategyName = ''Cold Wallet'', targetAddress = cold_address\<rparr>"

definition three_active :: agent where
  "three_active =
     run [Create deployed wallet_params,
          Create (deployed\<lparr>date_now := 1700000000001\<rparr>) gas_params,
          Create (deployed\<lparr>date_now := 1700000000002\<rparr>) cold_params] new_agent"

definition second_fails :: "string \<Rightarrow> io" where
  "second_fails k =
     \<lparr>getAccountCoinBalance =
        (\<lambda>address.
           if k = ''topup_1700000000001'' then Inl (Error ''request timed out'')
           else if k = ''topup_1700000000000'' then Inr 2000000000
           else Inr 900000000),
      random_balance = 73000000, date = 1700000300000\<rparr>"

text \<open>
  A balance fetch that throws for the second of the three strategies, as a call of
  \<open>getAccountBalance\<close> replaced by a stub would.
\<close>

definition second_throws :: balance_fetch where
  "second_throws k address =
     (if k = ''topup_1700000000001'' then Inl (Error ''request timed out'')
      else if k = ''topup_1700000000000'' then Inr 2000000000
      else Inr 900000000)"

section \<open>Auxiliary facts\<close>

subsection \<open>The regular expression\<close>

lemma matches_repeat:
  "matches ((a, n) # r) s \<longleftrightarrow>
     n \<le> length s \<and> list_all (atom_matches a) (take n s) \<and> matches r (drop n s)"
proof (induction n arbitrary: s)
  case 0
  show ?case by simp
next
  case (Suc n)
  show ?case
  proof (cases s)
    case Nil
    then show ?thesis by simp
  next
    case (Cons c cs)
    then show ?thesis using Suc.IH [of cs] by auto
  qed
qed

lemma char_code: "c = d \<longleftrightarrow> (of_char c :: nat) = of_char d"
  by (simp add: of_char_eq_iff)

lemma hex_class_iff: "atom_matches hex_class c \<longleftrightarrow> hex_digit c"
proof -
  define n where "n = (of_char c :: nat)"
  have "(97 \<le> n \<and> n \<le> 102 \<or> 65 \<le> n \<and> n \<le> 70 \<or> 48 \<le> n \<and> n \<le> 57) \<longleftrightarrow>
        n \<in> {48, 49, 50, 51, 52, 53, 54, 55, 56, 57,
             97, 98, 99, 100, 101, 102, 65, 66, 67, 68, 69, 70}"
    by (simp, arith)
  then show ?thesis
    unfolding hex_digit_def n_def hex_class_def
    by (simp add: char_code [of c])
qed

lemma isValidAddress_shape:
  "isValidAddress s \<longleftrightarrow> (\<exists>h. s = ''0x'' @ h \<and> length h = 64 \<and> list_all hex_digit h)"
proof
  assume v: "isValidAddress s"
  then have len: "2 \<le> length s"
    by (auto simp: isValidAddress_def address_regex_def matches_repeat)
  then obtain c1 c2 h where s: "s = c1 # c2 # h"
    by (cases s; cases "tl s") auto
  with v show "\<exists>h. s = ''0x'' @ h \<and> length h = 64 \<and> list_all hex_digit h"
    by (auto simp: isValidAddress_def address_regex_def matches_repeat hex_class_iff list_all_iff)
next
  assume "\<exists>h. s = ''0x'' @ h \<and> length h = 64 \<and> list_all hex_digit h"
  then show "isValidAddress s"
    by (auto simp: isValidAddress_def address_regex_def matches_repeat hex_class_iff list_all_iff)
qed

lemma valid_wallet_address: "isValidAddress wallet_address"
  by (simp add: wallet_address_def isValidAddress_shape hex_digit_def list_all_iff)

lemma valid_zero_address: "isValidAddress zero_address"
  by (simp add: zero_address_def isValidAddress_shape hex_digit_def list_all_iff)

lemma valid_cold_address: "isValidAddress cold_address"
  by (simp add: cold_address_def isValidAddress_shape hex_digit_def list_all_iff)

lemma invalid_short_address: "\<not> isValidAddress ''0x123''"
  by (simp add: isValidAddress_shape)

subsection \<open>The map of strategies\<close>

lemma map_of_map_set: "map_of (map_set k v m) = (map_of m)(k \<mapsto> v)"
  by (induction m) auto

lemma map_set_fresh: "map_of m k = None \<Longrightarrow> map_set k v m = m @ [(k, v)]"
  by (induction m) (auto split: if_splits)

lemma map_set_same: "map_of m k = Some v \<Longrightarrow> map_set k v m = m"
  by (induction m) (auto split: if_splits)

lemma inactive_cancelled: "\<not> isActive x \<Longrightarrow> x\<lparr>isActive := False\<rparr> = x"
  by simp

subsection \<open>Creation, by outcome of the deployment\<close>

lemma sample_id: "string_of_int 1700000000000 = ''1700000000000''"
  by (simp add: string_of_int_def string_of_nat.simps digit_char_def)

lemma sample_ids:
  "string_of_int 1700000000001 = ''1700000000001''"
  "string_of_int 1700000000002 = ''1700000000002''"
  by (simp_all add: string_of_int_def string_of_nat.simps digit_char_def)

lemmas create_simps =
  createAutoTopupStrategy_def performPreDeploymentChecks_def store_strategy_def emit_def Let_def

lemma create_valid_real:
  assumes "isValidAddress (targetAddress p)" and "deploy_reply io = Inr (hash, task)"
  shows "createAutoTopupStrategy io p s =
    (\<lparr>success = True,
      message = check_mark @ '' Strategy '' @ double_quote @ strategyName p @
                double_quote @ '' deployed successfully!'',
      error_message = None,
      result_strategyId = Some (''topup_'' @ string_of_int (date_now io)),
      result_txHash = Some hash, result_taskId = Some task,
      result_strategy = Some (length (heap s)),
      mode = Some ''REAL_DEPLOYMENT'', failure_note = None\<rparr>,
     s\<lparr>heap := heap s @
         [\<lparr>id_s = ''topup_'' @ string_of_int (date_now io), type_s = auto_topup,
           name = strategyName p,
           description = ''Smart auto top-up for '' @ targetAddress p @
                         '' - maintains 600+ SUPRA balance'',
           target = targetAddress p, taskId = Some task, isActive = True,
           createdAt = new_date io, lastChecked = None, executionCount = 0,
           successRate = 1, totalTransferred = 0, lastExecution = None\<rparr>],
       strategies := map_set (''topup_'' @ string_of_int (date_now io)) (length (heap s))
                       (strategies s),
       totalStrategiesCreated := totalStrategiesCreated s + 1,
       events := events s @ [strategyCreated (length (heap s))]\<rparr>)"
  using assms by (simp add: create_simps)

lemma create_valid_simulated:
  assumes "isValidAddress (targetAddress p)" and "deploy_reply io = Inl e"
  shows "createAutoTopupStrategy io p s =
    (\<lparr>success = True,
      message = cycle_mark @ '' Strategy created in simulation mode'',
      error_message = None,
      result_strategyId = Some (''topup_'' @ string_of_int (date_now io)),
      result_txHash = Some (''0x'' @ random_hash io), result_taskId = Some (random_taskId io),
      result_strategy = Some (length (heap s)),
      mode = Some ''SIMULATION'',
      failure_note = Some (''Real deployment failed: '' @ error_text e)\<rparr>,
     s\<lparr>heap := heap s @
         [\<lparr>id_s = ''topup_'' @ string_of_int (date_now io), type_s = auto_topup,
           name = strategyName p,
           description = ''Simulated auto top-up for '' @ targetAddress p,
           target = targetAddress p, taskId = Some (random_taskId io), isActive = True,
           createdAt = new_date io, lastChecked = None, executionCount = 0,
           successRate = 1, totalTransferred = 0, lastExecution = None\<rparr>],
       strategies := map_set (''topup_'' @ string_of_int (date_now io)) (length (heap s))
                       (strategies s)\<rparr>)"
  using assms by (simp add: create_simps)

subsection \<open>The example states\<close>

lemma one_simulated_eq:
  "one_simulated =
     \<lparr>heap = [\<lparr>id_s = ''topup_1700000000000'', type_s = auto_topup, name = ''Trading Wallet'',
               description = ''Simulated auto top-up for '' @ wallet_address,
               target = wallet_address, taskId = Some 42, isActive = True,
               createdAt = 1700000010050, lastChecked = None, executionCount = 0,
               successRate = 1, totalTransferred = 0, lastExecution = None\<rparr>],
      strategies = [(''topup_1700000000000'', 0)],
      totalStrategiesCreated = 0, events = []\<rparr>"
  unfolding one_simulated_def
  by (simp add: create_valid_simulated [where e = "Error ''Insufficient balance''"]
      valid_wallet_address wallet_params_def deploy_failed_def deployed_def new_agent_def
      sample_id)

lemma one_deployed_eq:
  "one_deployed =
     \<lparr>heap = [\<lparr>id_s = ''topup_1700000000000'', type_s = auto_topup, name = ''Trading Wallet'',
               description = ''Smart auto top-up for '' @ wallet_address @
                             '' - maintains 600+ SUPRA balance'',
               target = wallet_address, taskId = Some 42, isActive = True,
               createdAt = 1700000010050, lastChecked = None, executionCount = 0,
               successRate = 1, totalTransferred = 0, lastExecution = None\<rparr>],
      strategies = [(''topup_1700000000000'', 0)],
      totalStrategiesCreated = 1, events = [strategyCreated 0]\<rparr>"
  unfolding one_deployed_def
  by (simp add: create_valid_real [where hash = "''0xbeef0000002a''" and task = 42]
      valid_wallet_address wallet_params_def deployed_def new_agent_def sample_id)

lemma one_cancelled_eq:
  "one_cancelled =
     \<lparr>heap = [\<lparr>id_s = ''topup_1700000000000'', type_s = auto_topup, name = ''Trading Wallet'',
               description = ''Simulated auto top-up for '' @ wallet_address,
               target = wallet_address, taskId = Some 42, isActive = False,
               createdAt = 1700000010050, lastChecked = None, executionCount = 0,
               successRate = 1, totalTransferred = 0, lastExecution = None\<rparr>],
      strategies = [(''topup_1700000000000'', 0)],
      totalStrategiesCreated = 0, events = []\<rparr>"
  unfolding one_cancelled_def
  by (simp add: one_simulated_eq cancelStrategy_def Let_def)

lemma three_active_eq:
  "three_active =
     \<lparr>heap =
        [\<lparr>id_s = ''topup_1700000000000'', type_s = auto_topup, name = ''Trading Wallet'',
          description = ''Smart auto top-up for '' @ wallet_address @
                        '' - maintains 600+ SUPRA balance'',
          target = wallet_address, taskId = Some 42, isActive = True,
          createdAt = 1700000010050, lastChecked = None, executionCount = 0,
          successRate = 1, totalTransferred = 0, lastExecution = None\<rparr>,
         \<lparr>id_s = ''topup_1700000000001'', type_s = auto_topup, name = ''Gas Wallet'',
          description = ''Smart auto top-up for '' @ zero_address @
                        '' - maintains 600+ SUPRA balance'',
          target = zero_address, taskId = Some 42, isActive = True,
          createdAt = 1700000010050, lastChecked = None, executionCount = 0,
          successRate = 1, totalTransferred = 0, lastExecution = None\<rparr>,
         \<lparr>id_s = ''topup_1700000000002'', type_s = auto_topup, name = ''Cold Wallet'',
          description = ''Smart auto top-up for '' @ cold_address @
                        '' - maintains 600+ SUPRA balance'',
          target = cold_address, taskId = Some 42, isActive = True,
          createdAt = 1700000010050, lastChecked = None, executionCount = 0,
          successRate = 1, totalTransferred = 0, lastExecution = None\<rparr>],
      strategies =
        [(''topup_1700000000000'', 0), (''topup_1700000000001'', 1), (''topup_1700000000002'', 2)],
      totalStrategiesCreated = 3,
      events = [strategyCreated 0, strategyCreated 1, strategyCreated 2]\<rparr>"
proof -
  have v: "isValidAddress (targetAddress wallet_params)" "isValidAddress (targetAddress gas_params)"
    "isValidAddress (targetAddress cold_params)"
    by (simp_all add: wallet_params_def gas_params_def cold_params_def valid_wallet_address
        valid_zero_address valid_cold_address)
  have r: "deploy_reply deployed = Inr (''0xbeef0000002a'', 42)"
    "deploy_reply (deployed\<lparr>date_now := 1700000000001\<rparr>) = Inr (''0xbeef0000002a'', 42)"
    "deploy_reply (deployed\<lparr>date_now := 1700000000002\<rparr>) = Inr (''0xbeef0000002a'', 42)"
    by (simp_all add: deployed_def)
  have p: "strategyName wallet_params = ''Trading Wallet''" "targetAddress wallet_params = wallet_address"
    "strategyName gas_params = ''Gas Wallet''" "targetAddress gas_params = zero_address"
    "strategyName cold_params = ''Cold Wallet''" "targetAddress cold_params = cold_address"
    by (simp_all add: wallet_params_def gas_params_def cold_params_def)
  have d: "date_now deployed = 1700000000000" "new_date deployed = 1700000010050"
    by (simp_all add: deployed_def)
  show ?thesis
    unfolding three_active_def
    by (simp add: create_valid_real [OF v(1) r(1)] create_valid_real [OF v(2) r(2)]
        create_valid_real [OF v(3) r(3)] p d sample_id sample_ids new_agent_def)
qed

lemma wf_three_active: "wf three_active"
  by (simp add: wf_def three_active_eq)

subsection \<open>Decimal rendering is injective\<close>

lemma below_ten: "(d::nat) < 10 \<Longrightarrow> d \<in> {0, 1, 2, 3, 4, 5, 6, 7, 8, 9}"
  by (simp, arith)

lemma digit_value_digit_char: "d < 10 \<Longrightarrow> digit_value (digit_char d) = d"
  using below_ten [of d] by (auto simp: digit_value_def digit_char_def)

lemma digit_char_not_minus: "d < 10 \<Longrightarrow> digit_char d \<noteq> CHR ''-''"
  using below_ten [of d] by (auto simp: digit_char_def)

lemma decimal_value_string_of_nat: "decimal_value (string_of_nat n) = n"
proof (induction n rule: string_of_nat.induct)
  case (1 n)
  show ?case
  proof (cases "n < 10")
    case True
    then show ?thesis
      by (simp add: string_of_nat.simps [of n] decimal_value_def digit_value_digit_char)
  next
    case False
    with "1.IH" have "decimal_value (string_of_nat (n div 10)) = n div 10"
      by simp
    with False show ?thesis
      by (simp add: string_of_nat.simps [of n] decimal_value_def digit_value_digit_char)
  qed
qed

lemma string_of_nat_inj: "string_of_nat m = string_of_nat n \<Longrightarrow> m = n"
proof -
  assume "string_of_nat m = string_of_nat n"
  then have "decimal_value (string_of_nat m) = decimal_value (string_of_nat n)"
    by (rule arg_cong)
  then show "m = n"
    by (simp only: decimal_value_string_of_nat)
qed

lemma hd_string_of_nat: "string_of_nat n \<noteq> [] \<and> hd (string_of_nat n) \<noteq> CHR ''-''"
proof (induction n rule: string_of_nat.induct)
  case (1 n)
  show ?case
  proof (cases "n < 10")
    case True
    then show ?thesis
      by (simp add: string_of_nat.simps [of n] digit_char_not_minus)
  next
    case False
    with "1.IH" show ?thesis
      by (simp add: string_of_nat.simps [of n])
  qed
qed

lemma string_of_int_inj: "string_of_int i = string_of_int j \<Longrightarrow> i = j"
proof -
  assume eq: "string_of_int i = string_of_int j"
  have mixed: False if "a < 0" "\<not> b < 0" "string_of_int a = string_of_int b" for a b :: int
  proof -
    from that have "CHR ''-'' # string_of_nat (nat (- a)) = string_of_nat (nat b)"
      by (simp add: string_of_int_def)
    then have "hd (string_of_nat (nat b)) = CHR ''-''"
      by (metis list.sel(1))
    with hd_string_of_nat [of "nat b"] show False by simp
  qed
  show "i = j"
  proof (cases "i < 0")
    case True
    show ?thesis
    proof (cases "j < 0")
      case True
      with \<open>i < 0\<close> eq have "nat (- i) = nat (- j)"
        by (simp add: string_of_int_def string_of_nat_inj)
      with True \<open>i < 0\<close> show ?thesis by simp
    next
      case False
      with \<open>i < 0\<close> eq mixed [of i j] show ?thesis by simp
    qed
  next
    case False
    show ?thesis
    proof (cases "j < 0")
      case True
      with False eq mixed [of j i] show ?thesis by simp
    next
      case nonneg: False
      with False eq have "nat i = nat j"
        by (simp add: string_of_int_def string_of_nat_inj)
      with False nonneg show ?thesis by simp
    qed
  qed
qed

lemma strategy_ids_differ:
  "(''topup_'' @ string_of_int t = ''topup_'' @ string_of_int t') \<longleftrightarrow> t = t'"
  using string_of_int_inj by auto

subsection \<open>The monitor, entry by entry\<close>

lemma getAccountBalance_fetched: "getAccountBalance w address = Inr (fetched_balance w address)"
  by (simp add: getAccountBalance_def fetched_balance_def split: sum.split)

lemma heap_touch: "heap (touch k a d s) = (heap s)[a := (heap s ! a)\<lparr>lastChecked := Some d\<rparr>]"
  by (simp add: touch_def)

lemma events_touch: "events (touch k a d s) = events s"
  by (simp add: touch_def)

lemma strategies_touch:
  "map_of (strategies s) k = Some a \<Longrightarrow> strategies (touch k a d s) = strategies s"
  by (simp add: touch_def map_set_same)

lemma counter_touch: "totalStrategiesCreated (touch k a d s) = totalStrategiesCreated s"
  by (simp add: touch_def)

lemma heap_check_entry:
  "heap (check_entry fetch clock k a s) = (heap s)[a := entry_object fetch clock s (k, a)]"
  by (simp add: check_entry_def entry_object_def heap_touch emit_def Let_def split: sum.split)

lemma events_check_entry:
  "events (check_entry fetch clock k a s) = events s @ entry_events fetch s (k, a)"
  by (simp add: check_entry_def entry_events_def events_touch emit_def Let_def split: sum.split)

lemma strategies_check_entry:
  "map_of (strategies s) k = Some a \<Longrightarrow> strategies (check_entry fetch clock k a s) = strategies s"
  by (simp add: check_entry_def strategies_touch emit_def Let_def split: sum.split)

lemma counter_check_entry:
  "totalStrategiesCreated (check_entry fetch clock k a s) = totalStrategiesCreated s"
  by (simp add: check_entry_def counter_touch emit_def Let_def split: sum.split)

lemma isActive_entry_object:
  "isActive (entry_object fetch clock s (k, a)) = isActive (heap s ! a)"
  by (simp add: entry_object_def split: sum.split)

lemma entry_events_cong:
  "heap s' ! a = heap s ! a \<Longrightarrow> entry_events fetch s' (k, a) = entry_events fetch s (k, a)"
  by (simp add: entry_events_def)

lemma entry_object_cong:
  "heap s' ! a = heap s ! a \<Longrightarrow> entry_object fetch clock s' (k, a) = entry_object fetch clock s (k, a)"
  by (simp add: entry_object_def split: sum.split)

subsection \<open>The loop\<close>

lemma length_heap_check_loop: "length (heap (check_loop fetch clock es s)) = length (heap s)"
proof (induction es arbitrary: s)
  case Nil
  show ?case by simp
next
  case (Cons e es)
  obtain k a where e: "e = (k, a)" by (cases e)
  from Cons.IH [of "check_entry fetch clock k a s"] e show ?case
    by (simp add: heap_check_entry)
qed

lemma counter_check_loop:
  "totalStrategiesCreated (check_loop fetch clock es s) = totalStrategiesCreated s"
proof (induction es arbitrary: s)
  case Nil
  show ?case by simp
next
  case (Cons e es)
  obtain k a where e: "e = (k, a)" by (cases e)
  from Cons.IH [of "check_entry fetch clock k a s"] e show ?case
    by (simp add: counter_check_entry)
qed

lemma untouched_check_loop:
  "b \<notin> snd ` set es \<Longrightarrow> heap (check_loop fetch clock es s) ! b = heap s ! b"
proof (induction es arbitrary: s)
  case Nil
  show ?case by simp
next
  case (Cons e es)
  obtain k a where e: "e = (k, a)" by (cases e)
  from Cons.prems e have ne: "b \<noteq> a" and rest: "b \<notin> snd ` set es"
    by auto
  from Cons.IH [OF rest, of "check_entry fetch clock k a s"] ne e show ?case
    by (simp add: heap_check_entry)
qed

lemma strategies_check_loop:
  "list_all (\<lambda>(k, a). map_of (strategies s) k = Some a) es \<Longrightarrow>
     strategies (check_loop fetch clock es s) = strategies s"
proof (induction es arbitrary: s)
  case Nil
  show ?case by simp
next
  case (Cons e es)
  obtain k a where e: "e = (k, a)" by (cases e)
  from Cons.prems e have same: "strategies (check_entry fetch clock k a s) = strategies s"
    by (simp add: strategies_check_entry)
  with Cons.prems e have "list_all (\<lambda>(k', a'). map_of (strategies (check_entry fetch clock k a s)) k' = Some a') es"
    by simp
  from Cons.IH [OF this] same e show ?case by simp
qed

lemma events_check_loop:
  "distinct (map snd es) \<Longrightarrow>
     events (check_loop fetch clock es s) = events s @ concat (map (entry_events fetch s) es)"
proof (induction es arbitrary: s)
  case Nil
  show ?case by simp
next
  case (Cons e es)
  obtain k a where e: "e = (k, a)" by (cases e)
  let ?s1 = "check_entry fetch clock k a s"
  from Cons.prems e have d: "distinct (map snd es)" and fresh: "a \<notin> snd ` set es"
    by auto
  have "map (entry_events fetch ?s1) es = map (entry_events fetch s) es"
  proof (rule map_cong [OF refl])
    fix x assume x: "x \<in> set es"
    obtain k' a' where x': "x = (k', a')" by (cases x)
    with x fresh have "a' \<noteq> a" by force
    then have "heap ?s1 ! a' = heap s ! a'"
      by (simp add: heap_check_entry)
    then have "entry_events fetch ?s1 (k', a') = entry_events fetch s (k', a')"
      by (rule entry_events_cong)
    with x' show "entry_events fetch ?s1 x = entry_events fetch s x"
      by simp
  qed
  with Cons.IH [OF d, of ?s1] e show ?case
    by (simp add: events_check_entry)
qed

lemma object_check_loop:
  "distinct (map snd es) \<Longrightarrow> (k, a) \<in> set es \<Longrightarrow> a < length (heap s) \<Longrightarrow>
     heap (check_loop fetch clock es s) ! a = entry_object fetch clock s (k, a)"
proof (induction es arbitrary: s)
  case Nil
  then show ?case by simp
next
  case (Cons e es)
  obtain k' a' where e: "e = (k', a')" by (cases e)
  let ?s1 = "check_entry fetch clock k' a' s"
  from Cons.prems(1) e have d: "distinct (map snd es)" and fresh: "a' \<notin> snd ` set es"
    by auto
  show ?case
  proof (cases "(k, a) \<in> set es")
    case True
    with fresh have ne: "a \<noteq> a'" by force
    then have same: "heap ?s1 ! a = heap s ! a"
      by (simp add: heap_check_entry)
    from Cons.prems(3) have "a < length (heap ?s1)"
      by (simp add: heap_check_entry)
    from Cons.IH [OF d True this] entry_object_cong [OF same, of fetch clock k] e show ?thesis
      by simp
  next
    case False
    with Cons.prems(2) e have here: "k' = k" "a' = a" by auto
    with fresh have "a \<notin> snd ` set es" by simp
    then have "heap (check_loop fetch clock es ?s1) ! a = heap ?s1 ! a"
      by (rule untouched_check_loop)
    with here Cons.prems(3) e show ?thesis
      by (simp add: heap_check_entry)
  qed
qed

lemma wf_entries:
  "wf s \<Longrightarrow> list_all (\<lambda>(k, a). map_of (strategies s) k = Some a) (strategies s)"
  by (auto simp: wf_def list_all_iff)

lemma wf_in_range: "wf s \<Longrightarrow> (k, a) \<in> set (strategies s) \<Longrightarrow> a < length (heap s)"
  by (auto simp: wf_def list_all_iff)

lemma concat_single:
  "distinct es \<Longrightarrow> y \<in> set es \<Longrightarrow> concat (map (\<lambda>x. if x = y then [v] else []) es) = [v]"
proof (induction es)
  case Nil
  then show ?case by simp
next
  case (Cons x es)
  show ?case
  proof (cases "x = y")
    case True
    with Cons.prems have "y \<notin> set es" by simp
    then have "map (\<lambda>x. if x = y then [v] else []) es = map (\<lambda>x. []) es"
      by (intro map_cong [OF refl]) auto
    with True show ?thesis by simp
  next
    case False
    with Cons show ?thesis by simp
  qed
qed

lemma same_object_same_key:
  "distinct (map snd es) \<Longrightarrow> (k1, a) \<in> set es \<Longrightarrow> (k2, a) \<in> set es \<Longrightarrow> k1 = k2"
proof -
  assume "distinct (map snd es)" and 1: "(k1, a) \<in> set es" and 2: "(k2, a) \<in> set es"
  then have "inj_on snd (set es)"
    by (simp add: distinct_map)
  from inj_onD [OF this _ 1 2] show "k1 = k2" by simp
qed

lemma same_key_same_object:
  "distinct (map fst es) \<Longrightarrow> (k, a1) \<in> set es \<Longrightarrow> (k, a2) \<in> set es \<Longrightarrow> a1 = a2"
proof -
  assume "distinct (map fst es)" and 1: "(k, a1) \<in> set es" and 2: "(k, a2) \<in> set es"
  then have "inj_on fst (set es)"
    by (simp add: distinct_map)
  from inj_onD [OF this _ 1 2] show "a1 = a2" by simp
qed

lemma alert_in_entry_events:
  "lowBalanceAlert a' b \<in> set (entry_events fetch s (k, a)) \<longleftrightarrow>
     a = a' \<and> isActive (heap s ! a) \<and> fetch k (target (heap s ! a)) = Inr b \<and> b < 2 * 600000000"
  by (auto simp: entry_events_def threshold_def split: sum.splits)

subsection \<open>Objects are only ever appended, deactivated or touched\<close>

lemma isActive_list_update:
  "b < length h \<Longrightarrow> isActive (h[a := x] ! b) = (if a = b then isActive x else isActive (h ! b))"
  by (cases "a = b") simp_all

lemma heap_create:
  "\<exists>xs. heap (snd (createAutoTopupStrategy io p s)) = heap s @ xs"
proof (cases "isValidAddress (targetAddress p)")
  case False
  then have "heap (snd (createAutoTopupStrategy io p s)) = heap s @ []"
    by (simp add: createAutoTopupStrategy_def emit_def)
  then show ?thesis ..
next
  case True
  show ?thesis
  proof (cases "deploy_reply io")
    case (Inl e)
    with True show ?thesis by (simp add: create_valid_simulated)
  next
    case (Inr r)
    obtain hash task where "r = (hash, task)" by (cases r)
    with Inr True show ?thesis by (simp add: create_valid_real)
  qed
qed

lemma heap_cancel:
  "heap (snd (cancelStrategy k s)) = heap s \<or>
   (\<exists>a. heap (snd (cancelStrategy k s)) = (heap s)[a := (heap s ! a)\<lparr>isActive := False\<rparr>])"
  by (cases "map_of (strategies s) k") (auto simp: cancelStrategy_def Let_def)

lemma create_keeps_inactive:
  assumes "b < length (heap s)" and "\<not> isActive (heap s ! b)"
  shows "b < length (heap (snd (createAutoTopupStrategy io p s))) \<and>
         \<not> isActive (heap (snd (createAutoTopupStrategy io p s)) ! b)"
proof -
  obtain xs where "heap (snd (createAutoTopupStrategy io p s)) = heap s @ xs"
    using heap_create by blast
  with assms show ?thesis by (simp add: nth_append)
qed

lemma cancel_keeps_inactive:
  assumes "b < length (heap s)" and "\<not> isActive (heap s ! b)"
  shows "b < length (heap (snd (cancelStrategy k s))) \<and>
         \<not> isActive (heap (snd (cancelStrategy k s)) ! b)"
  using heap_cancel [of k s] assms by (auto simp: isActive_list_update split: if_splits)

lemma isActive_check_loop:
  "b < length (heap s) \<Longrightarrow>
     isActive (heap (check_loop fetch clock es s) ! b) = isActive (heap s ! b)"
proof (induction es arbitrary: s)
  case Nil
  show ?case by simp
next
  case (Cons e es)
  obtain k a where e: "e = (k, a)" by (cases e)
  let ?s1 = "check_entry fetch clock k a s"
  from Cons.prems have len: "b < length (heap ?s1)"
    by (simp add: heap_check_entry)
  from Cons.prems have "isActive (heap ?s1 ! b) = isActive (heap s ! b)"
    by (simp add: heap_check_entry isActive_list_update isActive_entry_object)
  with Cons.IH [OF len] e show ?case by simp
qed

lemma length_heap_update_loop: "length (heap (update_loop clock es s)) = length (heap s)"
proof (induction es arbitrary: s)
  case Nil
  show ?case by simp
next
  case (Cons e es)
  obtain k a where e: "e = (k, a)" by (cases e)
  from Cons.IH [of "if isActive (heap s ! a) then touch k a (clock k) s else s"] e show ?case
    by (simp add: heap_touch)
qed

lemma isActive_update_loop:
  "b < length (heap s) \<Longrightarrow>
     isActive (heap (update_loop clock es s) ! b) = isActive (heap s ! b)"
proof (induction es arbitrary: s)
  case Nil
  show ?case by simp
next
  case (Cons e es)
  obtain k a where e: "e = (k, a)" by (cases e)
  let ?s1 = "if isActive (heap s ! a) then touch k a (clock k) s else s"
  from Cons.prems have len: "b < length (heap ?s1)"
    by (simp add: heap_touch)
  from Cons.prems have "isActive (heap ?s1 ! b) = isActive (heap s ! b)"
    by (simp add: heap_touch isActive_list_update)
  with Cons.IH [OF len] e show ?case by simp
qed

lemma perform_keeps_inactive:
  assumes "b < length (heap s)" and "\<not> isActive (heap s ! b)"
  shows "b < length (heap (perform operation s)) \<and> \<not> isActive (heap (perform operation s) ! b)"
proof (cases operation)
  case (Create io p)
  with assms show ?thesis by (simp add: create_keeps_inactive)
next
  case (Cancel k)
  with assms show ?thesis by (simp add: cancel_keeps_inactive)
next
  case ListActive
  with assms show ?thesis by simp
next
  case (CheckStatus strategyId w)
  with assms show ?thesis by simp
next
  case (PeriodicCheck w)
  with assms show ?thesis
    by (simp add: runPeriodicCheck_def length_heap_check_loop isActive_check_loop)
next
  case (UpdatePerformance clock)
  with assms show ?thesis
    by (simp add: updateStrategyPerformance_def length_heap_update_loop isActive_update_loop)
qed

subsection \<open>Every reachable state is well formed\<close>

lemma wf_cong: "heap s' = heap s \<Longrightarrow> strategies s' = strategies s \<Longrightarrow> wf s' = wf s"
  by (simp add: wf_def)

lemma set_map_set: "set (map_set k v m) \<subseteq> insert (k, v) (set m)"
  by (induction m) (auto split: if_splits)

lemma keys_map_set: "fst ` set (map_set k v m) = insert k (fst ` set m)"
proof (induction m)
  case Nil
  show ?case by simp
next
  case (Cons e m)
  obtain k' v' where e: "e = (k', v')" by (cases e)
  show ?case
  proof (cases "k' = k")
    case True
    with e show ?thesis by simp
  next
    case False
    with Cons.IH e show ?thesis by (simp add: insert_commute)
  qed
qed

lemma distinct_keys_map_set:
  "distinct (map fst m) \<Longrightarrow> distinct (map fst (map_set k v m))"
proof (induction m)
  case Nil
  show ?case by simp
next
  case (Cons e m)
  obtain k' v' where e: "e = (k', v')" by (cases e)
  show ?case
  proof (cases "k' = k")
    case True
    with Cons.prems e show ?thesis by simp
  next
    case False
    from Cons.prems e have "k' \<notin> fst ` set m" by simp
    with False have "k' \<notin> fst ` set (map_set k v m)"
      by (simp add: keys_map_set)
    with Cons e False show ?thesis by simp
  qed
qed

lemma distinct_values_map_set:
  "distinct (map snd m) \<Longrightarrow> v \<notin> snd ` set m \<Longrightarrow> distinct (map snd (map_set k v m))"
proof (induction m)
  case Nil
  show ?case by simp
next
  case (Cons e m)
  obtain k' v' where e: "e = (k', v')" by (cases e)
  show ?case
  proof (cases "k' = k")
    case True
    with Cons.prems e show ?thesis by simp
  next
    case False
    from Cons.prems e have v': "v' \<notin> snd ` set m" "v' \<noteq> v" by auto
    have "v' \<notin> snd ` set (map_set k v m)"
    proof
      assume "v' \<in> snd ` set (map_set k v m)"
      then obtain x where "x \<in> set (map_set k v m)" "snd x = v'" by auto
      with set_map_set [of k v m] have "x = (k, v) \<or> x \<in> set m" by auto
      with \<open>snd x = v'\<close> v' show False by auto
    qed
    moreover from Cons.prems e have "distinct (map snd m)" "v \<notin> snd ` set m" by auto
    ultimately show ?thesis using Cons.IH e False by simp
  qed
qed

lemma wf_store_strategy: "wf s \<Longrightarrow> wf (store_strategy k x s)"
proof -
  assume w: "wf s"
  let ?n = "length (heap s)"
  from w have fresh: "?n \<notin> snd ` set (strategies s)"
    by (auto simp: wf_def list_all_iff)
  from w have "list_all (\<lambda>(k, a). a < Suc ?n) (strategies s)"
    by (auto simp: wf_def list_all_iff)
  with set_map_set [of k ?n "strategies s"]
  have "list_all (\<lambda>(k, a). a < Suc ?n) (map_set k ?n (strategies s))"
    by (auto simp: list_all_iff)
  with w fresh show ?thesis
    by (simp add: wf_def store_strategy_def distinct_keys_map_set distinct_values_map_set)
qed

lemma wf_create: "wf s \<Longrightarrow> wf (snd (createAutoTopupStrategy io p s))"
proof -
  assume w: "wf s"
  let ?k = "''topup_'' @ string_of_int (date_now io)"
  show ?thesis
  proof (cases "isValidAddress (targetAddress p)")
    case False
    then have "wf (snd (createAutoTopupStrategy io p s)) = wf s"
      by (intro wf_cong) (simp_all add: createAutoTopupStrategy_def emit_def)
    with w show ?thesis by simp
  next
    case True
    have "\<exists>x. heap (snd (createAutoTopupStrategy io p s)) = heap (store_strategy ?k x s) \<and>
              strategies (snd (createAutoTopupStrategy io p s)) = strategies (store_strategy ?k x s)"
    proof (cases "deploy_reply io")
      case (Inl e)
      with True show ?thesis
        by (simp add: create_valid_simulated store_strategy_def)
    next
      case (Inr r)
      obtain hash task where "r = (hash, task)" by (cases r)
      with Inr True show ?thesis
        by (simp add: create_valid_real store_strategy_def)
    qed
    then obtain x where "wf (snd (createAutoTopupStrategy io p s)) = wf (store_strategy ?k x s)"
      using wf_cong by blast
    with wf_store_strategy [OF w] show ?thesis by simp
  qed
qed

lemma wf_cancel: "wf s \<Longrightarrow> wf (snd (cancelStrategy k s))"
  by (cases "map_of (strategies s) k")
    (simp_all add: cancelStrategy_def Let_def map_set_same wf_def)

lemma strategies_update_loop:
  "list_all (\<lambda>(k, a). map_of (strategies s) k = Some a) es \<Longrightarrow>
     strategies (update_loop clock es s) = strategies s"
proof (induction es arbitrary: s)
  case Nil
  show ?case by simp
next
  case (Cons e es)
  obtain k a where e: "e = (k, a)" by (cases e)
  let ?s1 = "if isActive (heap s ! a) then touch k a (clock k) s else s"
  from Cons.prems e have same: "strategies ?s1 = strategies s"
    by (simp add: strategies_touch)
  with Cons.prems e have "list_all (\<lambda>(k', a'). map_of (strategies ?s1) k' = Some a') es"
    by simp
  from Cons.IH [OF this] same e show ?case by simp
qed

lemma wf_periodic: "wf s \<Longrightarrow> wf (runPeriodicCheck w s)"
proof -
  assume w: "wf s"
  have "strategies (runPeriodicCheck w s) = strategies s"
    unfolding runPeriodicCheck_def by (rule strategies_check_loop [OF wf_entries [OF w]])
  moreover have "length (heap (runPeriodicCheck w s)) = length (heap s)"
    unfolding runPeriodicCheck_def by (rule length_heap_check_loop)
  ultimately show ?thesis using w by (simp add: wf_def)
qed

lemma wf_update: "wf s \<Longrightarrow> wf (updateStrategyPerformance clock s)"
proof -
  assume w: "wf s"
  have "strategies (updateStrategyPerformance clock s) = strategies s"
    unfolding updateStrategyPerformance_def
    by (rule strategies_update_loop [OF wf_entries [OF w]])
  moreover have "length (heap (updateStrategyPerformance clock s)) = length (heap s)"
    unfolding updateStrategyPerformance_def by (rule length_heap_update_loop)
  ultimately show ?thesis using w by (simp add: wf_def)
qed

lemma wf_perform: "wf s \<Longrightarrow> wf (perform operation s)"
  by (cases operation) (simp_all add: wf_create wf_cancel wf_periodic wf_update)

lemma wf_run: "wf s \<Longrightarrow> wf (run operations s)"
  by (induction operations arbitrary: s) (simp_all add: wf_perform)

lemma wf_new_agent: "wf new_agent"
  by (simp add: wf_def new_agent_def)

lemma wf_reachable: "wf (run operations new_agent)"
  by (rule wf_run [OF wf_new_agent])

section \<open>Address validation (claim C9)\<close>

text \<open>
  Claim C9. For every string \<open>s\<close>, \<open>isValidAddress s\<close> is true if and only if \<open>s\<close> is the
  prefix \<open>0x\<close> followed by exactly 64 hexadecimal characters (digits, or letters \<open>a\<close> to
  \<open>f\<close> in either case). In particular \<open>0x\<close> followed by 64 zeros is accepted, while
  \<open>0x123\<close> and a string of 64 hexadecimal characters without the prefix are rejected.
\<close>

theorem isValidAddress_iff:
  "(isValidAddress s \<longleftrightarrow>
      (\<exists>h. s = ''0x'' @ h \<and> length h = 64 \<and> (\<forall>c \<in> set h. hex_digit c))) \<and>
   isValidAddress (''0x'' @ replicate 64 CHR ''0'') \<and>
   \<not> isValidAddress ''0x123'' \<and>
   \<not> isValidAddress (replicate 64 CHR ''a'')"
proof -
  have "isValidAddress (''0x'' @ replicate 64 CHR ''0'')"
    by (simp add: isValidAddress_shape hex_digit_def list_all_iff)
  moreover have "\<not> isValidAddress ''0x123''"
    by (simp add: isValidAddress_shape)
  moreover have "\<not> isValidAddress (replicate 64 CHR ''a'')"
  proof
    assume "isValidAddress (replicate 64 CHR ''a'')"
    then obtain h where h: "replicate 64 CHR ''a'' = ''0x'' @ h" "length h = 64"
      using isValidAddress_shape by blast
    from h(1) have "length (replicate 64 CHR ''a'') = length (''0x'' @ h)"
      by (rule arg_cong)
    with h(2) show False by simp
  qed
  ultimately show ?thesis
    by (simp add: isValidAddress_shape list_all_iff)
qed

theorem isValidAddress_iff_witness:
  "isValidAddress ''0x00000000000000000000000000000000000000000000000000000000000000aF'' \<and>
   \<not> isValidAddress ''0x00000000000000000000000000000000000000000000000000000000000000aG''"
proof -
  let ?h = "''00000000000000000000000000000000000000000000000000000000000000aF''"
  let ?g = "''00000000000000000000000000000000000000000000000000000000000000aG''"
  have "length ?h = 64 \<and> (\<forall>c \<in> set ?h. hex_digit c)"
    by (simp add: hex_digit_def)
  then have 1: "isValidAddress (''0x'' @ ?h)"
    using isValidAddress_iff [of "''0x'' @ ?h"] by blast
  have "\<not> (\<forall>c \<in> set ?g. hex_digit c)"
    by (simp add: hex_digit_def)
  then have 2: "\<not> isValidAddress (''0x'' @ ?g)"
    using isValidAddress_iff [of "''0x'' @ ?g"] by auto
  from 1 2 show ?thesis by simp
qed

section \<open>Cancelling (claims C7 and C10)\<close>

text \<open>
  Claim C7. For every strategy id that is not a key of the store, \<open>cancelStrategy\<close>
  returns a result with \<open>success = false\<close> and the message \<open>Strategy not found\<close> (a
  returned value, not a thrown error) and leaves the state as it was: the same entries
  and the same record objects.
\<close>

theorem cancel_unknown_id:
  "map_of (strategies s) k = None \<Longrightarrow>
     success (fst (cancelStrategy k s)) = False \<and>
     message (fst (cancelStrategy k s)) = ''Strategy not found'' \<and>
     snd (cancelStrategy k s) = s"
  by (simp add: cancelStrategy_def)

theorem cancel_unknown_id_witness:
  "map_of (strategies one_simulated) ''topup_42'' = None \<and>
   success (fst (cancelStrategy ''topup_42'' one_simulated)) = False \<and>
   message (fst (cancelStrategy ''topup_42'' one_simulated)) = ''Strategy not found'' \<and>
   snd (cancelStrategy ''topup_42'' one_simulated) = one_simulated"
proof -
  have h: "map_of (strategies one_simulated) ''topup_42'' = None"
    by (simp add: one_simulated_eq)
  from h cancel_unknown_id [OF h] show ?thesis by simp
qed

text \<open>
  Claim C10. For every strategy id whose record is in the store and already has
  \<open>isActive = false\<close>, \<open>cancelStrategy\<close> returns \<open>success = true\<close> with the message
  \<open>Successfully cancelled\<close> and the strategy's name (it reports neither not-found nor
  already-inactive), and leaves the state as it was: \<open>isActive\<close> stays false and every
  field of every record is the same.
\<close>

theorem cancel_inactive_again:
  "map_of (strategies s) k = Some a \<Longrightarrow> a < length (heap s) \<Longrightarrow> \<not> isActive (heap s ! a) \<Longrightarrow>
     success (fst (cancelStrategy k s)) = True \<and>
     message (fst (cancelStrategy k s)) =
       check_mark @ '' Successfully cancelled: '' @ name (heap s ! a) \<and>
     snd (cancelStrategy k s) = s"
  by (simp add: cancelStrategy_def Let_def map_set_same inactive_cancelled)

theorem cancel_inactive_again_witness:
  "map_of (strategies one_cancelled) ''topup_1700000000000'' = Some 0 \<and>
   0 < length (heap one_cancelled) \<and>
   \<not> isActive (heap one_cancelled ! 0) \<and>
   success (fst (cancelStrategy ''topup_1700000000000'' one_cancelled)) = True \<and>
   message (fst (cancelStrategy ''topup_1700000000000'' one_cancelled)) =
     check_mark @ '' Successfully cancelled: Trading Wallet'' \<and>
   snd (cancelStrategy ''topup_1700000000000'' one_cancelled) = one_cancelled"
proof -
  have h1: "map_of (strategies one_cancelled) ''topup_1700000000000'' = Some 0"
    and h2: "0 < length (heap one_cancelled)"
    and h3: "\<not> isActive (heap one_cancelled ! 0)"
    and n: "name (heap one_cancelled ! 0) = ''Trading Wallet''"
    by (simp_all add: one_cancelled_eq)
  from cancel_inactive_again [OF h1 h2 h3] h1 h2 h3 n show ?thesis by simp
qed

section \<open>Creation with a malformed address (claim C8)\<close>

text \<open>
  Claim C8. For every target address that fails the address-format check,
  \<open>createAutoTopupStrategy\<close> returns a result with \<open>success = false\<close>, emits one
  \<open>strategyCreationFailed\<close> notification and commits nothing: the heap of records, the
  map of strategies and the creation counter are the same before and after the call.
\<close>

theorem create_invalid_address:
  "\<not> isValidAddress (targetAddress p) \<Longrightarrow>
     success (fst (createAutoTopupStrategy io p s)) = False \<and>
     heap (snd (createAutoTopupStrategy io p s)) = heap s \<and>
     strategies (snd (createAutoTopupStrategy io p s)) = strategies s \<and>
     totalStrategiesCreated (snd (createAutoTopupStrategy io p s)) = totalStrategiesCreated s \<and>
     events (snd (createAutoTopupStrategy io p s)) =
       events s @
       [strategyCreationFailed
          (Error (''Invalid address format: '' @ targetAddress p @
                  ''. Must be 0x followed by 64 hex characters.'')) p]"
  by (simp add: createAutoTopupStrategy_def emit_def)

theorem create_invalid_address_witness:
  "\<not> isValidAddress (targetAddress short_params) \<and>
   success (fst (createAutoTopupStrategy deployed short_params one_simulated)) = False \<and>
   heap (snd (createAutoTopupStrategy deployed short_params one_simulated)) = heap one_simulated \<and>
   strategies (snd (createAutoTopupStrategy deployed short_params one_simulated)) =
     [(''topup_1700000000000'', 0)] \<and>
   totalStrategiesCreated (snd (createAutoTopupStrategy deployed short_params one_simulated)) = 0 \<and>
   events (snd (createAutoTopupStrategy deployed short_params one_simulated)) =
     [strategyCreationFailed
        (Error ''Invalid address format: 0x123. Must be 0x followed by 64 hex characters.'')
        short_params]"
proof -
  have h: "\<not> isValidAddress (targetAddress short_params)"
    by (simp add: short_params_def invalid_short_address)
  have t: "targetAddress short_params = ''0x123''"
    by (simp add: short_params_def)
  have s: "strategies one_simulated = [(''topup_1700000000000'', 0)]"
    "totalStrategiesCreated one_simulated = 0" "events one_simulated = []"
    by (simp_all add: one_simulated_eq)
  from create_invalid_address [OF h, of deployed one_simulated] h t s show ?thesis by simp
qed

section \<open>Creation with a well-formed address (claims C1, C3 and C4)\<close>

text \<open>
  Claim C1 says that the two outcomes of a creation differ only in the mode tag and in
  where the task id comes from, and that every creation with a well-formed address
  adds exactly one record. Neither holds as stated. The stored records of the two
  outcomes differ in their description even when the task ids agree; and a creation
  whose id is already a key of the store replaces that entry, so the store does not
  grow.
\<close>

theorem create_outcomes_counterexample:
  "taskId (heap one_deployed ! 0) = taskId (heap one_simulated ! 0) \<and>
   description (heap one_deployed ! 0) \<noteq> description (heap one_simulated ! 0) \<and>
   isValidAddress (targetAddress gas_params) \<and>
   success (fst (createAutoTopupStrategy deploy_failed gas_params one_simulated)) = True \<and>
   length (strategies (snd (createAutoTopupStrategy deploy_failed gas_params one_simulated))) =
     length (strategies one_simulated)"
proof -
  have v: "isValidAddress (targetAddress gas_params)"
    by (simp add: gas_params_def valid_zero_address)
  have e: "deploy_reply deploy_failed = Inl (Error ''Insufficient balance'')"
    "date_now deploy_failed = 1700000000000"
    by (simp_all add: deploy_failed_def deployed_def)
  show ?thesis
    using v by (simp add: create_valid_simulated [OF v e(1)] e(2) sample_id one_simulated_eq one_deployed_eq)
qed

text \<open>
  Claim C1, amended. For every creation whose target address passes the format check
  and whose id (\<open>topup_\<close> and the clock reading) is not yet a key of the store, the result
  has \<open>success = true\<close>, whether the deployment succeeds (mode \<open>REAL_DEPLOYMENT\<close>) or
  fails (mode \<open>SIMULATION\<close>); exactly one entry is appended to the store, for a newly
  allocated record with \<open>isActive = true\<close>, and every other entry and record stays as
  it was. Between the two outcomes the stored record differs in its description and in
  where its task id comes from, and the result differs in its mode tag.
\<close>

theorem create_adds_one_active_record:
  assumes "isValidAddress (targetAddress p)"
    and "map_of (strategies s) (''topup_'' @ string_of_int (date_now io)) = None"
  shows
    "success (fst (createAutoTopupStrategy io p s)) = True \<and>
     mode (fst (createAutoTopupStrategy io p s)) =
       Some (case deploy_reply io of Inr r \<Rightarrow> ''REAL_DEPLOYMENT'' | Inl e \<Rightarrow> ''SIMULATION'') \<and>
     result_strategyId (fst (createAutoTopupStrategy io p s)) =
       Some (''topup_'' @ string_of_int (date_now io)) \<and>
     strategies (snd (createAutoTopupStrategy io p s)) =
       strategies s @ [(''topup_'' @ string_of_int (date_now io), length (heap s))] \<and>
     heap (snd (createAutoTopupStrategy io p s)) =
       heap s @
       [\<lparr>id_s = ''topup_'' @ string_of_int (date_now io), type_s = auto_topup,
         name = strategyName p,
         description =
           (case deploy_reply io of
              Inr r \<Rightarrow> ''Smart auto top-up for '' @ targetAddress p @
                       '' - maintains 600+ SUPRA balance''
            | Inl e \<Rightarrow> ''Simulated auto top-up for '' @ targetAddress p),
         target = targetAddress p,
         taskId = (case deploy_reply io of Inr r \<Rightarrow> Some (snd r) | Inl e \<Rightarrow> Some (random_taskId io)),
         isActive = True, createdAt = new_date io, lastChecked = None, executionCount = 0,
         successRate = 1, totalTransferred = 0, lastExecution = None\<rparr>]"
proof (cases "deploy_reply io")
  case (Inl e)
  with assms show ?thesis
    by (simp add: create_valid_simulated map_set_fresh)
next
  case (Inr r)
  obtain hash task where r: "r = (hash, task)" by (cases r)
  with Inr assms show ?thesis
    by (simp add: create_valid_real map_set_fresh)
qed

theorem create_adds_one_active_record_witness:
  "isValidAddress (targetAddress wallet_params) \<and>
   map_of (strategies new_agent) (''topup_'' @ string_of_int (date_now deployed)) = None \<and>
   map_of (strategies new_agent) (''topup_'' @ string_of_int (date_now deploy_failed)) = None \<and>
   mode (fst (createAutoTopupStrategy deployed wallet_params new_agent)) = Some ''REAL_DEPLOYMENT'' \<and>
   mode (fst (createAutoTopupStrategy deploy_failed wallet_params new_agent)) = Some ''SIMULATION'' \<and>
   success (fst (createAutoTopupStrategy deployed wallet_params new_agent)) = True \<and>
   success (fst (createAutoTopupStrategy deploy_failed wallet_params new_agent)) = True \<and>
   strategies (snd (createAutoTopupStrategy deployed wallet_params new_agent)) =
     [(''topup_1700000000000'', 0)] \<and>
   strategies (snd (createAutoTopupStrategy deploy_failed wallet_params new_agent)) =
     [(''topup_1700000000000'', 0)] \<and>
   length (heap (snd (createAutoTopupStrategy deployed wallet_params new_agent))) = 1 \<and>
   length (heap (snd (createAutoTopupStrategy deploy_failed wallet_params new_agent))) = 1 \<and>
   isActive (heap (snd (createAutoTopupStrategy deployed wallet_params new_agent)) ! 0) \<and>
   isActive (heap (snd (createAutoTopupStrategy deploy_failed wallet_params new_agent)) ! 0)"
proof -
  have v: "isValidAddress (targetAddress wallet_params)"
    by (simp add: wallet_params_def valid_wallet_address)
  have f1: "map_of (strategies new_agent) (''topup_'' @ string_of_int (date_now deployed)) = None"
    and f2: "map_of (strategies new_agent) (''topup_'' @ string_of_int (date_now deploy_failed)) = None"
    by (simp_all add: new_agent_def)
  have d: "date_now deployed = 1700000000000" "date_now deploy_failed = 1700000000000"
    "deploy_reply deployed = Inr (''0xbeef0000002a'', 42)"
    "deploy_reply deploy_failed = Inl (Error ''Insufficient balance'')"
    "heap new_agent = []" "strategies new_agent = []"
    by (simp_all add: deployed_def deploy_failed_def new_agent_def)
  from create_adds_one_active_record [OF v f1] create_adds_one_active_record [OF v f2] v f1 f2
  show ?thesis
    by (simp add: d sample_id)
qed

text \<open>
  Claim C3 expects the creation counter and the \<open>strategyCreated\<close> notification in both
  modes. The code has them in the branch of the successful deployment only: after a
  creation in simulation mode the record is stored and active, the counter is where it
  was and nothing was emitted.
\<close>

theorem simulated_creation_not_counted:
  "success (fst (createAutoTopupStrategy deploy_failed wallet_params new_agent)) = True \<and>
   mode (fst (createAutoTopupStrategy deploy_failed wallet_params new_agent)) = Some ''SIMULATION'' \<and>
   strategies one_simulated = [(''topup_1700000000000'', 0)] \<and>
   isActive (heap one_simulated ! 0) \<and>
   totalStrategiesCreated one_simulated = totalStrategiesCreated new_agent \<and>
   events one_simulated = events new_agent \<and>
   totalStrategiesCreated one_deployed = totalStrategiesCreated new_agent + 1 \<and>
   events one_deployed = events new_agent @ [strategyCreated 0]"
proof -
  have v: "isValidAddress (targetAddress wallet_params)"
    by (simp add: wallet_params_def valid_wallet_address)
  have e: "deploy_reply deploy_failed = Inl (Error ''Insufficient balance'')"
    by (simp add: deploy_failed_def deployed_def)
  show ?thesis
    by (simp add: create_valid_simulated [OF v e] one_simulated_eq one_deployed_eq new_agent_def)
qed

text \<open>
  Claim C4 expects distinct ids for distinct creations. The id is \<open>topup_\<close> followed by
  the clock reading in milliseconds, so two creations that read the same clock value
  get the same id, and the second replaces the entry of the first: the store holds one
  entry, for the second record, and the first record is no longer reachable through it.
  (By \<open>strategy_ids_differ\<close> above this is the only way two ids coincide.)
\<close>

theorem same_clock_reading_reuses_id:
  "result_strategyId (fst (createAutoTopupStrategy deploy_failed wallet_params new_agent)) =
     Some ''topup_1700000000000'' \<and>
   result_strategyId (fst (createAutoTopupStrategy deploy_failed gas_params one_simulated)) =
     Some ''topup_1700000000000'' \<and>
   success (fst (createAutoTopupStrategy deploy_failed wallet_params new_agent)) = True \<and>
   success (fst (createAutoTopupStrategy deploy_failed gas_params one_simulated)) = True \<and>
   strategies one_simulated = [(''topup_1700000000000'', 0)] \<and>
   name (heap one_simulated ! 0) = ''Trading Wallet'' \<and>
   strategies overwritten = [(''topup_1700000000000'', 1)] \<and>
   name (heap overwritten ! 1) = ''Gas Wallet''"
proof -
  have v: "isValidAddress (targetAddress wallet_params)" "isValidAddress (targetAddress gas_params)"
    by (simp_all add: wallet_params_def gas_params_def valid_wallet_address valid_zero_address)
  have e: "deploy_reply deploy_failed = Inl (Error ''Insufficient balance'')"
    and d: "date_now deploy_failed = 1700000000000"
    by (simp_all add: deploy_failed_def deployed_def)
  have g: "strategyName gas_params = ''Gas Wallet''"
    by (simp add: gas_params_def)
  show ?thesis
    unfolding overwritten_def
    by (simp add: create_valid_simulated [OF v(1) e] create_valid_simulated [OF v(2) e]
        d g sample_id one_simulated_eq)
qed

section \<open>The health evaluation (claim C2)\<close>

text \<open>
  Claim C2 describes a three-tier classification with an urgency. That is
  \<open>analyzeStrategy\<close> of \<open>index.ts\<close>. The health evaluation of \<open>super-agent.ts\<close>,
  \<open>calculateHealthStatus\<close>, has two tiers and no urgency: at a balance equal to the
  threshold its status is \<open>healthy\<close>, not \<open>approaching_threshold\<close>, and below the
  threshold it is \<open>needs_topup\<close>, not \<open>below_threshold\<close>.
\<close>

theorem health_status_counterexample:
  "hs_status (calculateHealthStatus (heap one_simulated ! 0) 600000000) \<noteq> ''approaching_threshold'' \<and>
   hs_status (calculateHealthStatus (heap one_simulated ! 0) 500000000) \<noteq> ''below_threshold''"
  by (simp add: calculateHealthStatus_def threshold_def)

text \<open>
  Claim C2, amended. For every strategy record and every balance \<open>B\<close>, \<open>analyzeStrategy\<close>
  returns status \<open>below_threshold\<close> with urgency \<open>high\<close> when \<open>B < 600_000_000\<close>, status
  \<open>approaching_threshold\<close> with urgency \<open>medium\<close> when \<open>600_000_000 \<le> B < 1_200_000_000\<close>
  (so a balance equal to the threshold is approaching, not below), and status \<open>healthy\<close>
  with urgency \<open>low\<close> otherwise; \<open>calculateHealthStatus\<close> returns status \<open>needs_topup\<close>
  when \<open>B < 600_000_000\<close> and \<open>healthy\<close> otherwise; in both, \<open>willTrigger\<close> is true if and
  only if \<open>B < 600_000_000\<close>.
\<close>

theorem health_evaluation_tiers:
  "(B < 600000000 \<longrightarrow>
      status (analyzeStrategy x B) = ''below_threshold'' \<and> urgency (analyzeStrategy x B) = ''high'') \<and>
   (600000000 \<le> B \<and> B < 1200000000 \<longrightarrow>
      status (analyzeStrategy x B) = ''approaching_threshold'' \<and>
      urgency (analyzeStrategy x B) = ''medium'') \<and>
   (1200000000 \<le> B \<longrightarrow>
      status (analyzeStrategy x B) = ''healthy'' \<and> urgency (analyzeStrategy x B) = ''low'') \<and>
   (willTrigger (analyzeStrategy x B) \<longleftrightarrow> B < 600000000) \<and>
   (B < 600000000 \<longrightarrow> hs_status (calculateHealthStatus y B) = ''needs_topup'') \<and>
   (600000000 \<le> B \<longrightarrow> hs_status (calculateHealthStatus y B) = ''healthy'') \<and>
   (hs_willTrigger (calculateHealthStatus y B) \<longleftrightarrow> B < 600000000)"
  by (simp add: analyzeStrategy_def calculateHealthStatus_def threshold_def Let_def)

theorem health_evaluation_tiers_witness:
  "status (analyzeStrategy (heap one_simulated ! 0) 500000000) = ''below_threshold'' \<and>
   urgency (analyzeStrategy (heap one_simulated ! 0) 500000000) = ''high'' \<and>
   willTrigger (analyzeStrategy (heap one_simulated ! 0) 500000000) \<and>
   status (analyzeStrategy (heap one_simulated ! 0) 600000000) = ''approaching_threshold'' \<and>
   urgency (analyzeStrategy (heap one_simulated ! 0) 900000000) = ''medium'' \<and>
   \<not> willTrigger (analyzeStrategy (heap one_simulated ! 0) 900000000) \<and>
   status (analyzeStrategy (heap one_simulated ! 0) 1300000000) = ''healthy'' \<and>
   urgency (analyzeStrategy (heap one_simulated ! 0) 1300000000) = ''low'' \<and>
   hs_status (calculateHealthStatus (heap one_simulated ! 0) 500000000) = ''needs_topup'' \<and>
   hs_status (calculateHealthStatus (heap one_simulated ! 0) 900000000) = ''healthy''"
  using health_evaluation_tiers [of 500000000 "heap one_simulated ! 0" "heap one_simulated ! 0"]
    health_evaluation_tiers [of 600000000 "heap one_simulated ! 0" "heap one_simulated ! 0"]
    health_evaluation_tiers [of 900000000 "heap one_simulated ! 0" "heap one_simulated ! 0"]
    health_evaluation_tiers [of 1300000000 "heap one_simulated ! 0" "heap one_simulated ! 0"]
  by simp

section \<open>Cancellation is final (claim C5)\<close>

lemma run_keeps_inactive:
  "b < length (heap s) \<Longrightarrow> \<not> isActive (heap s ! b) \<Longrightarrow>
     b < length (heap (run operations s)) \<and> \<not> isActive (heap (run operations s) ! b)"
proof (induction operations arbitrary: s)
  case Nil
  then show ?case by simp
next
  case (Cons operation rest)
  from perform_keeps_inactive [OF Cons.prems, of operation]
  have "b < length (heap (perform operation s))" "\<not> isActive (heap (perform operation s) ! b)"
    by simp_all
  from Cons.IH [OF this] show ?case by simp
qed

text \<open>
  Claim C5. No strategy record's \<open>isActive\<close> field ever changes from false to true: a
  record that is inactive stays inactive through every sequence of operations (create,
  cancel, list, status check, periodic check, performance update), from every state;
  a record is created with \<open>isActive = true\<close>, and cancellation sets it to false.
\<close>

theorem inactive_stays_inactive:
  "(b < length (heap s) \<and> \<not> isActive (heap s ! b) \<longrightarrow>
      b < length (heap (run operations s)) \<and> \<not> isActive (heap (run operations s) ! b)) \<and>
   (isValidAddress (targetAddress p) \<longrightarrow>
      isActive (last (heap (perform (Create io p) s1)))) \<and>
   (map_of (strategies s2) k = Some a \<and> a < length (heap s2) \<longrightarrow>
      \<not> isActive (heap (perform (Cancel k) s2) ! a))"
proof (intro conjI impI)
  assume "b < length (heap s) \<and> \<not> isActive (heap s ! b)"
  then show "b < length (heap (run operations s))"
    and "\<not> isActive (heap (run operations s) ! b)"
    using run_keeps_inactive [of b s operations] by simp_all
next
  assume v: "isValidAddress (targetAddress p)"
  show "isActive (last (heap (perform (Create io p) s1)))"
  proof (cases "deploy_reply io")
    case (Inl e)
    with v show ?thesis by (simp add: create_valid_simulated)
  next
    case (Inr r)
    obtain hash task where "r = (hash, task)" by (cases r)
    with Inr v show ?thesis by (simp add: create_valid_real)
  qed
next
  assume "map_of (strategies s2) k = Some a \<and> a < length (heap s2)"
  then show "\<not> isActive (heap (perform (Cancel k) s2) ! a)"
    by (simp add: cancelStrategy_def Let_def)
qed

theorem inactive_stays_inactive_witness:
  "0 < length (heap one_cancelled) \<and> \<not> isActive (heap one_cancelled ! 0) \<and>
   0 < length (heap (run [Create deployed wallet_params, PeriodicCheck second_fails,
                          Cancel ''topup_1700000000000'', UpdatePerformance (\<lambda>k. 1700000600000),
                          CheckStatus None second_fails, ListActive] one_cancelled)) \<and>
   \<not> isActive (heap (run [Create deployed wallet_params, PeriodicCheck second_fails,
                          Cancel ''topup_1700000000000'', UpdatePerformance (\<lambda>k. 1700000600000),
                          CheckStatus None second_fails, ListActive] one_cancelled) ! 0) \<and>
   isValidAddress (targetAddress wallet_params) \<and>
   isActive (last (heap (perform (Create deployed wallet_params) one_cancelled))) \<and>
   map_of (strategies one_simulated) ''topup_1700000000000'' = Some 0 \<and>
   0 < length (heap one_simulated) \<and>
   isActive (heap one_simulated ! 0) \<and>
   \<not> isActive (heap (perform (Cancel ''topup_1700000000000'') one_simulated) ! 0)"
proof -
  let ?ops = "[Create deployed wallet_params, PeriodicCheck second_fails,
               Cancel ''topup_1700000000000'', UpdatePerformance (\<lambda>k. 1700000600000),
               CheckStatus None second_fails, ListActive]"
  have h: "0 < length (heap one_cancelled)" "\<not> isActive (heap one_cancelled ! 0)"
    by (simp_all add: one_cancelled_eq)
  have v: "isValidAddress (targetAddress wallet_params)"
    by (simp add: wallet_params_def valid_wallet_address)
  have c: "map_of (strategies one_simulated) ''topup_1700000000000'' = Some 0"
    "0 < length (heap one_simulated)" "isActive (heap one_simulated ! 0)"
    by (simp_all add: one_simulated_eq)
  from inactive_stays_inactive
    [of 0 one_cancelled ?ops wallet_params deployed one_cancelled one_simulated
      "''topup_1700000000000''" 0]
    h v c
  show ?thesis by blast
qed

section \<open>The periodic check (claim C6)\<close>

text \<open>
  What the loop does with a fetch that throws, for a single entry: one \<open>strategyError\<close>
  notification, and the record is left as it was.
\<close>

lemma thrown_fetch_is_reported:
  assumes "isActive (heap s ! a)" and "fetch k (target (heap s ! a)) = Inl e"
  shows "entry_events fetch s (k, a) = [strategyError k e] \<and>
         entry_object fetch clock s (k, a) = heap s ! a"
  using assms by (simp add: entry_events_def entry_object_def)

text \<open>
  Claim C6. For every well-formed store with active strategies where the balance fetch
  throws for exactly one of them, a single pass of the monitor's loop still refreshes
  \<open>lastChecked\<close> for every other active strategy, emits exactly one \<open>strategyError\<close>
  notification, for the failing one, skips inactive records entirely (as it leaves the
  failing record), and emits a \<open>lowBalanceAlert\<close> for an active strategy if and only if
  its fetched balance is strictly below \<open>2 \<times> 600_000_000\<close>; the failure does not abort the
  remaining iterations. The pass adds and removes no entry and only appends to the log
  of notifications. The balance fetch is the call the loop awaits, \<open>fetch\<close>;
  \<open>runPeriodicCheck\<close> is this loop over the entries of the \<open>Map\<close>, with
  \<open>getAccountBalance\<close> as the fetch (the last conjunct).
\<close>

theorem periodic_check_isolates_failure:
  assumes wf: "wf s"
    and failing: "(k, a) \<in> set (strategies s)" "isActive (heap s ! a)"
      "fetch k (target (heap s ! a)) = Inl e"
    and others: "\<forall>(k', a') \<in> set (strategies s).
                   isActive (heap s ! a') \<and> k' \<noteq> k \<longrightarrow>
                   (\<exists>b. fetch k' (target (heap s ! a')) = Inr b)"
  shows
    "strategies (check_loop fetch clock (strategies s) s) = strategies s \<and>
     take (length (events s)) (events (check_loop fetch clock (strategies s) s)) = events s \<and>
     filter is_strategyError
       (drop (length (events s)) (events (check_loop fetch clock (strategies s) s))) =
       [strategyError k e] \<and>
     (\<forall>(k', a') \<in> set (strategies s).
        heap (check_loop fetch clock (strategies s) s) ! a' =
          (if isActive (heap s ! a') \<and> k' \<noteq> k
           then (heap s ! a')\<lparr>lastChecked := Some (clock k')\<rparr>
           else heap s ! a')) \<and>
     (\<forall>(k', a') \<in> set (strategies s). \<forall>b.
        lowBalanceAlert a' b \<in>
          set (drop (length (events s)) (events (check_loop fetch clock (strategies s) s))) \<longleftrightarrow>
        isActive (heap s ! a') \<and> fetch k' (target (heap s ! a')) = Inr b \<and> b < 2 * 600000000) \<and>
     runPeriodicCheck w s =
       check_loop (\<lambda>k. getAccountBalance (w k)) (\<lambda>k. date (w k)) (strategies s) s"
proof -
  let ?es = "strategies s"
  let ?L = "check_loop fetch clock ?es s"
  let ?new = "concat (map (entry_events fetch s) ?es)"
  from wf have dk: "distinct (map fst ?es)" and da: "distinct (map snd ?es)"
    by (simp_all add: wf_def)
  from dk have des: "distinct ?es"
    by (simp add: distinct_map)
  have ev: "events ?L = events s @ ?new"
    by (rule events_check_loop [OF da])
  have 1: "strategies ?L = strategies s"
    by (rule strategies_check_loop [OF wf_entries [OF wf]])
  have 2: "take (length (events s)) (events ?L) = events s"
    by (simp add: ev)
  have new: "drop (length (events s)) (events ?L) = ?new"
    by (simp add: ev)
  have key: "k' = k \<longleftrightarrow> (k', a') = (k, a)" if "(k', a') \<in> set ?es" for k' a'
    using same_key_same_object [OF dk that, of a] failing(1) by auto
  have per: "filter is_strategyError (entry_events fetch s x) =
             (if x = (k, a) then [strategyError k e] else [])" if x: "x \<in> set ?es" for x
  proof -
    obtain k' a' where x': "x = (k', a')" by (cases x)
    show ?thesis
    proof (cases "x = (k, a)")
      case True
      with failing show ?thesis by (simp add: entry_events_def)
    next
      case False
      with x x' key have ne: "k' \<noteq> k" by simp
      show ?thesis
      proof (cases "isActive (heap s ! a')")
        case True
        with others x x' ne obtain b where "fetch k' (target (heap s ! a')) = Inr b"
          by blast
        with False x' True show ?thesis by (simp add: entry_events_def)
      next
        case inactive: False
        with False x' show ?thesis by (simp add: entry_events_def)
      qed
    qed
  qed
  have "filter is_strategyError ?new =
        concat (map (\<lambda>x. filter is_strategyError (entry_events fetch s x)) ?es)"
    by (simp add: filter_concat comp_def)
  also have "map (\<lambda>x. filter is_strategyError (entry_events fetch s x)) ?es =
             map (\<lambda>x. if x = (k, a) then [strategyError k e] else []) ?es"
    by (rule map_cong [OF refl]) (rule per)
  also have "concat \<dots> = [strategyError k e]"
    by (rule concat_single [OF des failing(1)])
  finally have 3: "filter is_strategyError (drop (length (events s)) (events ?L)) = [strategyError k e]"
    by (simp only: new)
  have 4: "\<forall>(k', a') \<in> set ?es.
        heap ?L ! a' =
          (if isActive (heap s ! a') \<and> k' \<noteq> k
           then (heap s ! a')\<lparr>lastChecked := Some (clock k')\<rparr>
           else heap s ! a')"
  proof (clarify)
    fix k' a' assume x: "(k', a') \<in> set ?es"
    have obj: "heap ?L ! a' = entry_object fetch clock s (k', a')"
      by (rule object_check_loop [OF da x wf_in_range [OF wf x]])
    show "heap ?L ! a' =
          (if isActive (heap s ! a') \<and> k' \<noteq> k
           then (heap s ! a')\<lparr>lastChecked := Some (clock k')\<rparr>
           else heap s ! a')"
    proof (cases "k' = k")
      case True
      with key [OF x] have "a' = a" by simp
      with True failing obj show ?thesis by (simp add: entry_object_def)
    next
      case False
      show ?thesis
      proof (cases "isActive (heap s ! a')")
        case True
        with others x False obtain b where "fetch k' (target (heap s ! a')) = Inr b"
          by blast
        with True False obj show ?thesis by (simp add: entry_object_def)
      next
        case inactive: False
        with obj show ?thesis by (simp add: entry_object_def)
      qed
    qed
  qed
  have 5: "\<forall>(k', a') \<in> set ?es. \<forall>b.
        lowBalanceAlert a' b \<in> set (drop (length (events s)) (events ?L)) \<longleftrightarrow>
        isActive (heap s ! a') \<and> fetch k' (target (heap s ! a')) = Inr b \<and> b < 2 * 600000000"
  proof (clarify)
    fix k' a' b assume x: "(k', a') \<in> set ?es"
    show "lowBalanceAlert a' b \<in> set (drop (length (events s)) (events ?L)) \<longleftrightarrow>
        isActive (heap s ! a') \<and> fetch k' (target (heap s ! a')) = Inr b \<and> b < 2 * 600000000"
    proof
      assume "lowBalanceAlert a' b \<in> set (drop (length (events s)) (events ?L))"
      then obtain y where y: "y \<in> set ?es" "lowBalanceAlert a' b \<in> set (entry_events fetch s y)"
        by (auto simp: new)
      obtain k2 a2 where y': "y = (k2, a2)" by (cases y)
      from y(2) have "lowBalanceAlert a' b \<in> set (entry_events fetch s (k2, a2))"
        by (simp only: y')
      then have h: "a2 = a' \<and> isActive (heap s ! a2) \<and>
                    fetch k2 (target (heap s ! a2)) = Inr b \<and> b < 2 * 600000000"
        by (auto simp: alert_in_entry_events)
      with y(1) y' have "(k2, a') \<in> set ?es" by simp
      from same_object_same_key [OF da this x] have "k2 = k'" .
      with h show "isActive (heap s ! a') \<and> fetch k' (target (heap s ! a')) = Inr b \<and>
                   b < 2 * 600000000"
        by blast
    next
      assume "isActive (heap s ! a') \<and> fetch k' (target (heap s ! a')) = Inr b \<and> b < 2 * 600000000"
      then have "lowBalanceAlert a' b \<in> set (entry_events fetch s (k', a'))"
        by (simp add: alert_in_entry_events)
      with x show "lowBalanceAlert a' b \<in> set (drop (length (events s)) (events ?L))"
        unfolding new by (simp only: set_concat set_map) blast
    qed
  qed
  have 6: "runPeriodicCheck w s =
       check_loop (\<lambda>k. getAccountBalance (w k)) (\<lambda>k. date (w k)) (strategies s) s"
    by (simp add: runPeriodicCheck_def)
  show ?thesis
    by (intro conjI 1 2 3 4 5 6)
qed

theorem periodic_check_isolates_failure_witness:
  "wf three_active \<and>
   strategies three_active =
     [(''topup_1700000000000'', 0), (''topup_1700000000001'', 1), (''topup_1700000000002'', 2)] \<and>
   map isActive (heap three_active) = [True, True, True] \<and>
   map lastChecked (heap three_active) = [None, None, None] \<and>
   second_throws ''topup_1700000000000'' (target (heap three_active ! 0)) = Inr 2000000000 \<and>
   second_throws ''topup_1700000000001'' (target (heap three_active ! 1)) =
     Inl (Error ''request timed out'') \<and>
   second_throws ''topup_1700000000002'' (target (heap three_active ! 2)) = Inr 900000000 \<and>
   filter is_strategyError
     (drop (length (events three_active))
        (events (check_loop second_throws (\<lambda>k. 1700000300000)
                   (strategies three_active) three_active))) =
     [strategyError ''topup_1700000000001'' (Error ''request timed out'')] \<and>
   lastChecked (heap (check_loop second_throws (\<lambda>k. 1700000300000)
                        (strategies three_active) three_active) ! 0) = Some 1700000300000 \<and>
   lastChecked (heap (check_loop second_throws (\<lambda>k. 1700000300000)
                        (strategies three_active) three_active) ! 1) = None \<and>
   lastChecked (heap (check_loop second_throws (\<lambda>k. 1700000300000)
                        (strategies three_active) three_active) ! 2) = Some 1700000300000 \<and>
   lowBalanceAlert 2 900000000 \<in>
     set (drop (length (events three_active))
            (events (check_loop second_throws (\<lambda>k. 1700000300000)
                       (strategies three_active) three_active))) \<and>
   lowBalanceAlert 0 2000000000 \<notin>
     set (drop (length (events three_active))
            (events (check_loop second_throws (\<lambda>k. 1700000300000)
                       (strategies three_active) three_active)))"
proof -
  let ?L = "check_loop second_throws (\<lambda>k. 1700000300000) (strategies three_active) three_active"
  let ?new = "drop (length (events three_active)) (events ?L)"
  have st: "strategies three_active =
     [(''topup_1700000000000'', 0), (''topup_1700000000001'', 1), (''topup_1700000000002'', 2)]"
    and act: "map isActive (heap three_active) = [True, True, True]"
    and lc: "map lastChecked (heap three_active) = [None, None, None]"
    by (simp_all add: three_active_eq)
  have f: "second_throws ''topup_1700000000000'' (target (heap three_active ! 0)) = Inr 2000000000"
    "second_throws ''topup_1700000000001'' (target (heap three_active ! 1)) =
       Inl (Error ''request timed out'')"
    "second_throws ''topup_1700000000002'' (target (heap three_active ! 2)) = Inr 900000000"
    by (simp_all add: second_throws_def)
  have h1: "(''topup_1700000000001'', 1) \<in> set (strategies three_active)"
    and h2: "isActive (heap three_active ! 1)"
    by (simp_all add: three_active_eq)
  have h3: "\<forall>(k', a') \<in> set (strategies three_active).
              isActive (heap three_active ! a') \<and> k' \<noteq> ''topup_1700000000001'' \<longrightarrow>
              (\<exists>b. second_throws k' (target (heap three_active ! a')) = Inr b)"
    by (simp add: st second_throws_def)
  note t = periodic_check_isolates_failure
    [OF wf_three_active h1 h2 f(2) h3, where clock = "\<lambda>k. 1700000300000" and w = second_fails]
  from t have e: "filter is_strategyError ?new =
      [strategyError ''topup_1700000000001'' (Error ''request timed out'')]"
    by blast
  from t have objs: "\<forall>(k', a') \<in> set (strategies three_active).
        heap ?L ! a' =
          (if isActive (heap three_active ! a') \<and> k' \<noteq> ''topup_1700000000001''
           then (heap three_active ! a')\<lparr>lastChecked := Some 1700000300000\<rparr>
           else heap three_active ! a')"
    by blast
  from t have alerts: "\<forall>(k', a') \<in> set (strategies three_active). \<forall>b.
        lowBalanceAlert a' b \<in> set ?new \<longleftrightarrow>
        isActive (heap three_active ! a') \<and>
        second_throws k' (target (heap three_active ! a')) = Inr b \<and> b < 2 * 600000000"
    by blast
  have m: "(''topup_1700000000000'', 0) \<in> set (strategies three_active)"
    "(''topup_1700000000002'', 2) \<in> set (strategies three_active)"
    by (simp_all add: st)
  have a0: "isActive (heap three_active ! 0)" and a2: "isActive (heap three_active ! 2)"
    and l1: "lastChecked (heap three_active ! 1) = None"
    by (simp_all add: three_active_eq)
  from objs m(1) a0 have o0: "lastChecked (heap ?L ! 0) = Some 1700000300000"
    by fastforce
  from objs h1 l1 have o1: "lastChecked (heap ?L ! 1) = None"
    by fastforce
  from objs m(2) a2 have o2: "lastChecked (heap ?L ! 2) = Some 1700000300000"
    by fastforce
  from alerts m(2) a2 f(3) have al2: "lowBalanceAlert 2 900000000 \<in> set ?new"
    by fastforce
  from alerts m(1) have al0: "lowBalanceAlert 0 2000000000 \<notin> set ?new"
    by fastforce
  from wf_three_active st act lc f e o0 o1 o2 al2 al0 show ?thesis
    by (intro conjI)
qed

text \<open>
  \<open>runPeriodicCheck\<close> calls the loop with the agent's own \<open>getAccountBalance\<close>, which
  returns a balance in every case: the client's, or the random draw in its place when
  the client's query throws. So in a pass of \<open>runPeriodicCheck\<close> a failing query of the
  client is not a fetch that throws: every active strategy is refreshed, and the
  notifications of the pass are the \<open>lowBalanceAlert\<close>s for the balances
  \<open>getAccountBalance\<close> returned. The random draw is below \<open>100_000_000\<close>, so it is a low
  balance.
\<close>

lemma runPeriodicCheck_with_fallback:
  assumes "wf s"
  shows
    "strategies (runPeriodicCheck w s) = strategies s \<and>
     length (heap (runPeriodicCheck w s)) = length (heap s) \<and>
     (\<forall>(k, a) \<in> set (strategies s).
        heap (runPeriodicCheck w s) ! a =
          (if isActive (heap s ! a) then (heap s ! a)\<lparr>lastChecked := Some (date (w k))\<rparr>
           else heap s ! a)) \<and>
     events (runPeriodicCheck w s) =
       events s @
       concat (map (\<lambda>(k, a).
                 if isActive (heap s ! a) \<and>
                    fetched_balance (w k) (target (heap s ! a)) < 2 * 600000000
                 then [lowBalanceAlert a (fetched_balance (w k) (target (heap s ! a)))]
                 else [])
               (strategies s))"
proof -
  let ?fetch = "\<lambda>k. getAccountBalance (w k)"
  let ?clock = "\<lambda>k. date (w k)"
  from assms have d: "distinct (map snd (strategies s))"
    by (simp add: wf_def)
  have 1: "strategies (runPeriodicCheck w s) = strategies s"
    unfolding runPeriodicCheck_def by (rule strategies_check_loop [OF wf_entries [OF assms]])
  have 2: "length (heap (runPeriodicCheck w s)) = length (heap s)"
    unfolding runPeriodicCheck_def by (rule length_heap_check_loop)
  have 3: "heap (runPeriodicCheck w s) ! a =
          (if isActive (heap s ! a) then (heap s ! a)\<lparr>lastChecked := Some (date (w k))\<rparr>
           else heap s ! a)" if "(k, a) \<in> set (strategies s)" for k a
    unfolding runPeriodicCheck_def
    using object_check_loop [OF d that wf_in_range [OF assms that], of ?fetch ?clock]
    by (simp add: entry_object_def getAccountBalance_fetched)
  have 4: "entry_events ?fetch s =
      (\<lambda>(k, a).
         if isActive (heap s ! a) \<and> fetched_balance (w k) (target (heap s ! a)) < 2 * 600000000
         then [lowBalanceAlert a (fetched_balance (w k) (target (heap s ! a)))]
         else [])"
    by (auto simp: entry_events_def getAccountBalance_fetched threshold_def fun_eq_iff)
  have 5: "events (runPeriodicCheck w s) = events s @ concat (map (entry_events ?fetch s) (strategies s))"
    unfolding runPeriodicCheck_def by (rule events_check_loop [OF d])
  have 6: "\<forall>(k, a) \<in> set (strategies s).
        heap (runPeriodicCheck w s) ! a =
          (if isActive (heap s ! a) then (heap s ! a)\<lparr>lastChecked := Some (date (w k))\<rparr>
           else heap s ! a)"
  proof (clarify)
    fix k a assume "(k, a) \<in> set (strategies s)"
    then show "heap (runPeriodicCheck w s) ! a =
          (if isActive (heap s ! a) then (heap s ! a)\<lparr>lastChecked := Some (date (w k))\<rparr>
           else heap s ! a)"
      by (rule 3)
  qed
  show ?thesis
    by (intro conjI 1 2 6 5 [unfolded 4])
qed

lemma fallback_balance_is_low:
  assumes "getAccountCoinBalance w address = Inl e" and "random_balance w < 100000000"
  shows "getAccountBalance w address = Inr (random_balance w) \<and>
         fetched_balance w address < 2 * 600000000"
  using assms by (simp add: getAccountBalance_def fetched_balance_def)

end
